theory Spec2Isabelle
  imports Main "HOL-Library.Word" "HOL-Library.Multiset"
begin

unbundle bit_operations_syntax

section \<open>Machine types and constants\<close>

type_synonym byte = "8 word"
type_synonym uint8 = "8 word"
type_synonym int16 = "16 word"
type_synonym uint16 = "16 word"
type_synonym int32 = "32 word"
type_synonym uint32 = "32 word"
type_synonym uint64 = "64 word"
type_synonym Oid = "32 word"
type_synonym BlockNumber = "32 word"
type_synonym OffsetNumber = "16 word"
type_synonym TransactionId = "32 word"
type_synonym Datum = "64 word"

text \<open>
  \<open>pg_checksum_data(data, len, init_value)\<close> is declared in \<open>storage/checksum.h\<close>; its
  body is not among the sources. Every function below takes it as a parameter: the
  bytes \<open>data[0..len)\<close> and the initial value go in, a 32-bit value comes out.
\<close>

type_synonym mixer = "byte list \<Rightarrow> uint32 \<Rightarrow> uint32"

text \<open>\<open>#define CHECKSUM_NULL 0xFFFFFFFF\<close> (checksum\_column.h).\<close>

definition CHECKSUM_NULL :: uint32 where
  "CHECKSUM_NULL = 0xFFFFFFFF"

text \<open>Reading \<open>n\<close> bytes at \<open>ptr + off\<close>, where \<open>mem\<close> is the memory that starts at \<open>ptr\<close>.\<close>

definition mem_span :: "byte list \<Rightarrow> nat \<Rightarrow> nat \<Rightarrow> byte list" where
  "mem_span mem off n = take n (drop off mem)"

section \<open>Pages, line pointers and items\<close>

text \<open>
  \<open>ItemIdData\<close> is the bit-field struct \<open>lp_off:15, lp_flags:2, lp_len:15\<close>.
\<close>

record ItemIdData =
  lp_off :: "15 word"
  lp_flags :: "2 word"
  lp_len :: "15 word"

definition LP_UNUSED :: "2 word" where "LP_UNUSED = 0"
definition LP_NORMAL :: "2 word" where "LP_NORMAL = 1"
definition LP_REDIRECT :: "2 word" where "LP_REDIRECT = 2"
definition LP_DEAD :: "2 word" where "LP_DEAD = 3"

definition ItemIdIsUsed :: "ItemIdData \<Rightarrow> bool" where
  "ItemIdIsUsed lp = (lp_flags lp \<noteq> LP_UNUSED)"

definition ItemIdIsDead :: "ItemIdData \<Rightarrow> bool" where
  "ItemIdIsDead lp = (lp_flags lp = LP_DEAD)"

definition ItemIdGetLength :: "ItemIdData \<Rightarrow> uint32" where
  "ItemIdGetLength lp = ucast (lp_len lp)"

text \<open>
  A page: the two header fields the code reads, the line-pointer array and the items.
  \<open>pd_linp\<close> is indexed as the C array is, by \<open>offsetNumber - 1\<close>, and is total:
  \<open>PageGetItemId\<close> checks no bound, so outside the populated range it decodes whatever
  lies there. \<open>pd_item\<close> gives the item that starts at byte offset \<open>lp_off\<close>.
\<close>

record 'item PageData =
  pd_lower :: uint16
  pd_upper :: uint16
  pd_linp :: "int \<Rightarrow> ItemIdData"
  pd_item :: "15 word \<Rightarrow> 'item"

definition SizeOfPageHeaderData :: uint16 where "SizeOfPageHeaderData = 24"
definition sizeof_ItemIdData :: uint16 where "sizeof_ItemIdData = 4"
definition FirstOffsetNumber :: OffsetNumber where "FirstOffsetNumber = 1"

definition PageGetMaxOffsetNumber :: "'item PageData \<Rightarrow> OffsetNumber" where
  "PageGetMaxOffsetNumber page =
     (if pd_lower page \<le> SizeOfPageHeaderData then 0
      else (pd_lower page - SizeOfPageHeaderData) div sizeof_ItemIdData)"

definition PageIsNew :: "'item PageData \<Rightarrow> bool" where
  "PageIsNew page = (pd_upper page = 0)"

definition PageGetItemId :: "'item PageData \<Rightarrow> OffsetNumber \<Rightarrow> ItemIdData" where
  "PageGetItemId page offnum = pd_linp page (uint offnum - 1)"

definition PageGetItem :: "'item PageData \<Rightarrow> ItemIdData \<Rightarrow> 'item" where
  "PageGetItem page lp = pd_item page (lp_off lp)"

text \<open>
  A heap tuple as the code sees it through a \<open>HeapTupleHeader\<close> pointer: the header
  fields it reads, and \<open>t_mem\<close>, the memory that starts at the header's address
  (header bytes first, then the data).
\<close>

record HeapTupleHeaderData =
  t_xmin :: TransactionId
  t_xmax :: TransactionId
  t_hoff :: uint8
  t_mem :: "byte list"

definition HeapTupleHeaderGetRawXmin :: "HeapTupleHeaderData \<Rightarrow> TransactionId" where
  "HeapTupleHeaderGetRawXmin tuple = t_xmin tuple"

definition HeapTupleHeaderGetRawXmax :: "HeapTupleHeaderData \<Rightarrow> TransactionId" where
  "HeapTupleHeaderGetRawXmax tuple = t_xmax tuple"

section \<open>Tuple checksum (checksum\_tuple.c)\<close>

text \<open>\<open>location_hash = (blkno << 16) | offnum\<close>, computed in \<open>uint32\<close>.\<close>

definition tuple_location_hash :: "BlockNumber \<Rightarrow> OffsetNumber \<Rightarrow> uint32" where
  "tuple_location_hash blkno offnum = push_bit 16 blkno OR ucast offnum"

text \<open>
  \<open>pg_tuple_checksum\<close>. \<open>len\<close> is a \<open>uint32\<close>: \<open>len -= tuple->t_hoff\<close> wraps, and
  \<open>len <= 0\<close> is the unsigned comparison.
\<close>

definition pg_tuple_checksum ::
  "mixer \<Rightarrow> HeapTupleHeaderData PageData \<Rightarrow> OffsetNumber \<Rightarrow> BlockNumber \<Rightarrow> bool \<Rightarrow> uint32"
where
  "pg_tuple_checksum pg_checksum_data page offnum blkno include_header =
     (if offnum < FirstOffsetNumber \<or> offnum > PageGetMaxOffsetNumber page then 0
      else
        let lp = PageGetItemId page offnum in
        if \<not> ItemIdIsUsed lp then 0
        else
          let tuple = PageGetItem page lp;
              len = ItemIdGetLength lp;
              off = (if include_header then 0 else unat (t_hoff tuple));
              len = (if include_header then len else len - ucast (t_hoff tuple))
          in
          if \<not> include_header \<and> len \<le> 0 then 0
          else
            let location_hash = tuple_location_hash blkno offnum;
                checksum = pg_checksum_data (mem_span (t_mem tuple) off (unat len)) location_hash;
                checksum = checksum XOR location_hash;
                checksum =
                  (if \<not> include_header
                   then checksum XOR
                        (HeapTupleHeaderGetRawXmin tuple XOR HeapTupleHeaderGetRawXmax tuple)
                   else checksum)
            in
            if checksum = CHECKSUM_NULL
            then (CHECKSUM_NULL XOR location_hash) AND 0xFFFFFFFE
            else checksum)"

text \<open>
  The tuple checksum as the specification words it (section 4.3), over the row bytes,
  the header length, the location and the visibility stamp. It is compared with
  \<open>pg_tuple_checksum\<close> below.
\<close>

definition NULL_MARK :: uint32 where
  "NULL_MARK = - 1"

definition location_seed_spec :: "uint32 \<Rightarrow> uint16 \<Rightarrow> uint32" where
  "location_seed_spec container_block_id offset_in_container =
     push_bit 16 container_block_id OR ucast offset_in_container"

definition null_mark_remap_spec :: "uint32 \<Rightarrow> uint32 \<Rightarrow> uint32" where
  "null_mark_remap_spec seed fp =
     (if fp = NULL_MARK then unset_bit 0 (NULL_MARK XOR seed) else fp)"

definition checksum_tuple_spec ::
  "mixer \<Rightarrow> byte list \<Rightarrow> nat \<Rightarrow> uint16 \<Rightarrow> uint32 \<Rightarrow> bool \<Rightarrow> uint32 \<times> uint32 \<Rightarrow> uint32"
where
  "checksum_tuple_spec mix row_bytes header_length offset_in_container container_block_id
       include_header visibility_stamp =
     (let location_seed = location_seed_spec container_block_id offset_in_container;
          span = (if include_header then row_bytes else drop header_length row_bytes)
      in
      if \<not> include_header \<and> span = [] then 0
      else
        let raw = mix span location_seed XOR location_seed;
            raw = (if include_header then raw
                   else raw XOR (fst visibility_stamp XOR snd visibility_stamp))
        in null_mark_remap_spec location_seed raw)"

section \<open>Column checksum (checksum\_column.c)\<close>

datatype error =
    ERR_cache_lookup_failed_for_type Oid
  | ERR_invalid_pointer_for_fixed_length_reference_type
  | ERR_elog_invalid_attribute_number int32
  | ERR_invalid_attribute_number int32
  | ERR_attribute_number_exceeds_number_of_columns int32 int32
  | ERR_tuple_is_not_used BlockNumber OffsetNumber
  | ERR_cross_database_checksum_not_supported

record Form_pg_type =
  typbyval :: bool
  typlen :: int16

record Form_pg_attribute =
  atttypid :: Oid
  atttypmod :: int32

text \<open>
  \<open>TupleDescData\<close>: \<open>natts\<close> is a field of its own, \<open>attrs\<close> the array that
  \<open>TupleDescAttr\<close> indexes (guarded in the code by the checks on \<open>attnum\<close>).
\<close>

record TupleDescData =
  natts :: int32
  tdtypeid :: Oid
  attrs :: "int \<Rightarrow> Form_pg_attribute"

definition TupleDescAttr :: "TupleDescData \<Rightarrow> int32 \<Rightarrow> Form_pg_attribute" where
  "TupleDescAttr tupdesc i = attrs tupdesc (sint i)"

record ItemPointerData =
  ip_blkid :: BlockNumber
  ip_posid :: OffsetNumber

definition ItemPointerGetBlockNumber :: "ItemPointerData \<Rightarrow> BlockNumber" where
  "ItemPointerGetBlockNumber tid = ip_blkid tid"

definition ItemPointerGetOffsetNumber :: "ItemPointerData \<Rightarrow> OffsetNumber" where
  "ItemPointerGetOffsetNumber tid = ip_posid tid"

record IndexTupleData =
  t_tid :: ItemPointerData
  t_info :: uint16
  it_mem :: "byte list"

text \<open>
  A relation as \<open>relation_open\<close> hands it out: its OID, \<open>rd_rel->relkind\<close>, its tuple
  descriptor, and what the storage layer delivers for it: the \<open>t_self\<close> of each tuple
  that \<open>heap_getnext\<close> returns under the active snapshot, in scan order; the heap page
  that \<open>ReadBuffer\<close> returns for a block number; the blocks of an index, block 0 first
  (\<open>RelationGetNumberOfBlocks\<close> is their number).
\<close>

record RelationData =
  rd_id :: Oid
  rd_relkind :: char
  rd_att :: TupleDescData
  rd_heap_scan :: "ItemPointerData list"
  rd_heap_block :: "BlockNumber \<Rightarrow> HeapTupleHeaderData PageData"
  rd_index_blocks :: "IndexTupleData PageData list"

definition RelationGetDescr :: "RelationData \<Rightarrow> TupleDescData" where
  "RelationGetDescr rel = rd_att rel"

definition ReadBuffer :: "RelationData \<Rightarrow> BlockNumber \<Rightarrow> HeapTupleHeaderData PageData" where
  "ReadBuffer rel blkno = rd_heap_block rel blkno"

text \<open>
  The collaborators outside the checksum code: the type cache, the memory behind a
  \<open>Datum\<close>, attribute extraction and the relation cache. \<open>datum_mem v\<close> is the memory at
  \<open>(char *) &value\<close>, \<open>pointer_mem v\<close> the memory at \<open>DatumGetPointer(value)\<close>,
  \<open>detoast_mem v\<close> the memory at \<open>PG_DETOAST_DATUM(value)\<close>, and \<open>VARSIZE_ANY\<close> reads
  the length of the varlena that starts there. Errors that these layers raise on their
  own (a relation or block that does not exist) are not modelled.
\<close>

record backend =
  SearchSysCache1_TYPEOID :: "Oid \<Rightarrow> Form_pg_type option"
  datum_mem :: "Datum \<Rightarrow> byte list"
  pointer_mem :: "Datum \<Rightarrow> byte list"
  detoast_mem :: "Datum \<Rightarrow> byte list"
  VARSIZE_ANY :: "byte list \<Rightarrow> uint32"
  heap_getattr :: "HeapTupleHeaderData \<Rightarrow> int32 \<Rightarrow> TupleDescData \<Rightarrow> Datum \<times> bool"
  relation_open :: "Oid \<Rightarrow> RelationData"
  MyDatabaseId :: Oid

definition strlen :: "byte list \<Rightarrow> uint32" where
  "strlen mem = of_nat (length (takeWhile (\<lambda>b. b \<noteq> 0) mem))"

text \<open>
  \<open>pg_column_checksum_internal\<close>. \<open>attnum\<close> is an \<open>int\<close> and \<open>len\<close> an \<open>int\<close>; both
  convert to \<open>uint32\<close> at the call of \<open>pg_checksum_data\<close>. \<open>elog(ERROR, ...)\<close> does not
  return: it is the \<open>Inl\<close> branch.
\<close>

definition pg_column_checksum_internal ::
  "mixer \<Rightarrow> backend \<Rightarrow> Datum \<Rightarrow> bool \<Rightarrow> Oid \<Rightarrow> int32 \<Rightarrow> int32 \<Rightarrow> error + uint32"
where
  "pg_column_checksum_internal pg_checksum_data env val isnull typid typmod attnum =
     (if isnull then Inr CHECKSUM_NULL
      else
        case SearchSysCache1_TYPEOID env typid of
          None \<Rightarrow> Inl (ERR_cache_lookup_failed_for_type typid)
        | Some typeForm \<Rightarrow>
            let len_of_type = (scast (typlen typeForm) :: uint32);
                computed =
                  (if typbyval typeForm \<and> 0 <s typlen typeForm then
                     Inr (pg_checksum_data
                            (mem_span (datum_mem env val) 0 (unat len_of_type)) attnum)
                   else if typlen typeForm = - 1 then
                     let varlena = detoast_mem env val;
                         len = VARSIZE_ANY env varlena
                     in Inr (pg_checksum_data (mem_span varlena 0 (unat len)) attnum)
                   else if typlen typeForm = - 2 then
                     let data = pointer_mem env val;
                         len = strlen data
                     in Inr (pg_checksum_data (mem_span data 0 (unat len)) attnum)
                   else
                     if val = 0 then Inl ERR_invalid_pointer_for_fixed_length_reference_type
                     else Inr (pg_checksum_data
                                 (mem_span (pointer_mem env val) 0 (unat len_of_type)) attnum))
            in
            (case computed of
               Inl e \<Rightarrow> Inl e
             | Inr checksum \<Rightarrow>
                 Inr (if checksum = CHECKSUM_NULL
                      then (CHECKSUM_NULL XOR attnum XOR typid) AND 0xFFFFFFFE
                      else checksum)))"

definition pg_tuple_column_checksum ::
  "mixer \<Rightarrow> backend \<Rightarrow> HeapTupleHeaderData \<Rightarrow> int32 \<Rightarrow> TupleDescData \<Rightarrow> error + uint32"
where
  "pg_tuple_column_checksum pg_checksum_data env tuple attnum tupleDesc =
     (if attnum \<le>s 0 \<or> natts tupleDesc <s attnum then
        Inl (ERR_elog_invalid_attribute_number attnum)
      else
        let attr = TupleDescAttr tupleDesc (attnum - 1);
            (val, isnull) = heap_getattr env tuple attnum tupleDesc;
            typid = atttypid attr;
            typmod = atttypmod attr
        in pg_column_checksum_internal pg_checksum_data env val isnull typid typmod attnum)"

section \<open>Index tuple checksum (checksum\_index.c)\<close>

definition BTREE_AM_OID :: Oid where "BTREE_AM_OID = 403"

definition IndexTupleSize :: "IndexTupleData \<Rightarrow> uint32" where
  "IndexTupleSize itup = ucast (t_info itup AND 0x1FFF)"

definition pg_index_tuple_checksum ::
  "mixer \<Rightarrow> IndexTupleData \<Rightarrow> TupleDescData \<Rightarrow> OffsetNumber \<Rightarrow> uint32"
where
  "pg_index_tuple_checksum pg_checksum_data itup indexTupDesc attno =
     (let len = IndexTupleSize itup;
          checksum = pg_checksum_data (mem_span (it_mem itup) 0 (unat len)) (ucast attno);
          checksum =
            (if tdtypeid indexTupDesc = BTREE_AM_OID then
               let heapTid = t_tid itup;
                   checksum = checksum XOR ItemPointerGetBlockNumber heapTid
               in checksum XOR push_bit 16 (ucast (ItemPointerGetOffsetNumber heapTid))
             else checksum)
      in
      if checksum = CHECKSUM_NULL
      then (CHECKSUM_NULL XOR ucast attno XOR len) AND 0xFFFFFFFE
      else checksum)"

section \<open>Table checksum (checksumfuncs.c)\<close>

text \<open>
  The \<open>while ((tuple = heap_getnext(...)) != NULL)\<close> loop of \<open>pg_checksum_table\<close>,
  over the tuples the scan delivers, with \<open>table_checksum\<close> as the accumulator.
\<close>

primrec pg_checksum_table_loop ::
  "mixer \<Rightarrow> RelationData \<Rightarrow> bool \<Rightarrow> ItemPointerData list \<Rightarrow> uint32 \<Rightarrow> uint32"
where
  "pg_checksum_table_loop pg_checksum_data rel include_header [] table_checksum = table_checksum"
| "pg_checksum_table_loop pg_checksum_data rel include_header (t_self # rest) table_checksum =
     (let page = ReadBuffer rel (ItemPointerGetBlockNumber t_self);
          blkno = ItemPointerGetBlockNumber t_self;
          tuple_checksum =
            pg_tuple_checksum pg_checksum_data page (ItemPointerGetOffsetNumber t_self)
              blkno include_header
      in pg_checksum_table_loop pg_checksum_data rel include_header rest
           (table_checksum XOR tuple_checksum))"

definition pg_checksum_table :: "mixer \<Rightarrow> backend \<Rightarrow> Oid \<Rightarrow> bool \<Rightarrow> uint32" where
  "pg_checksum_table pg_checksum_data env reloid include_header =
     (let rel = relation_open env reloid
      in pg_checksum_table_loop pg_checksum_data rel include_header (rd_heap_scan rel) 0)"

section \<open>Column checksum at the SQL level (checksumfuncs.c)\<close>

definition pg_checksum_column ::
  "mixer \<Rightarrow> backend \<Rightarrow> Oid \<Rightarrow> ItemPointerData \<Rightarrow> int32 \<Rightarrow> error + uint32"
where
  "pg_checksum_column pg_checksum_data env reloid tid attnum_arg =
     (if attnum_arg \<le>s 0 then Inl (ERR_invalid_attribute_number attnum_arg)
      else
        let attnum = attnum_arg;
            rel = relation_open env reloid;
            tupleDesc = RelationGetDescr rel
        in
        if natts tupleDesc <s attnum then
          Inl (ERR_attribute_number_exceeds_number_of_columns attnum (natts tupleDesc))
        else
          let page = ReadBuffer rel (ItemPointerGetBlockNumber tid);
              lp = PageGetItemId page (ItemPointerGetOffsetNumber tid)
          in
          if \<not> ItemIdIsUsed lp then
            Inl (ERR_tuple_is_not_used (ItemPointerGetBlockNumber tid)
                   (ItemPointerGetOffsetNumber tid))
          else
            let tuple = PageGetItem page lp
            in pg_tuple_column_checksum pg_checksum_data env tuple attnum tupleDesc)"

section \<open>Index checksum at the SQL level (checksumfuncs.c)\<close>

text \<open>
  The two loops of \<open>pg_checksum_index\<close>, with \<open>index_checksum\<close> and \<open>n_tuples\<close> as the
  state. The inner loop ends for the reason given for \<open>process_index_for_checksum\<close>
  below: \<open>PageGetMaxOffsetNumber\<close> stays under 65535. The relation comes from
  \<open>index_open\<close>, which also refuses a relation that is not an index; like the other
  errors of the relation cache this is not modelled.
\<close>

function pg_checksum_index_items ::
  "mixer \<Rightarrow> TupleDescData \<Rightarrow> IndexTupleData PageData \<Rightarrow> OffsetNumber
     \<Rightarrow> uint32 \<times> uint64 \<Rightarrow> uint32 \<times> uint64"
where
  "pg_checksum_index_items pg_checksum_data tupdesc page offnum (index_checksum, tuples_seen) =
     (if offnum \<le> PageGetMaxOffsetNumber page then
        let itemId = PageGetItemId page offnum in
        if \<not> ItemIdIsUsed itemId \<or> ItemIdIsDead itemId then
          pg_checksum_index_items pg_checksum_data tupdesc page (offnum + 1)
            (index_checksum, tuples_seen)
        else
          let itup = PageGetItem page itemId;
              tuple_checksum = pg_index_tuple_checksum pg_checksum_data itup tupdesc offnum
          in pg_checksum_index_items pg_checksum_data tupdesc page (offnum + 1)
               (index_checksum XOR tuple_checksum, tuples_seen + 1)
      else (index_checksum, tuples_seen))"
  by pat_completeness auto
termination
proof (relation "measure (\<lambda>(m, d, page, offnum, acc).
                   Suc (unat (PageGetMaxOffsetNumber page)) - unat offnum)", goal_cases)
  case 1
  show ?case by simp
next
  case (2 m d page offnum c n)
  have "unat (pd_lower page - 24) < 2 ^ 16"
    using unsigned_less [of "pd_lower page - 24"] by simp
  then have "unat (pd_lower page - 24) div 4 < 65535" by simp
  then have "unat (PageGetMaxOffsetNumber page) < 65535"
    by (simp add: PageGetMaxOffsetNumber_def SizeOfPageHeaderData_def
          sizeof_ItemIdData_def unat_div)
  moreover have "unat offnum \<le> unat (PageGetMaxOffsetNumber page)"
    using 2 by (simp add: word_le_nat_alt)
  ultimately show ?case by (simp add: unat_word_ariths)
next
  case (3 m d page offnum c n)
  have "unat (pd_lower page - 24) < 2 ^ 16"
    using unsigned_less [of "pd_lower page - 24"] by simp
  then have "unat (pd_lower page - 24) div 4 < 65535" by simp
  then have "unat (PageGetMaxOffsetNumber page) < 65535"
    by (simp add: PageGetMaxOffsetNumber_def SizeOfPageHeaderData_def
          sizeof_ItemIdData_def unat_div)
  moreover have "unat offnum \<le> unat (PageGetMaxOffsetNumber page)"
    using 3 by (simp add: word_le_nat_alt)
  ultimately show ?case by (simp add: unat_word_ariths)
qed

declare pg_checksum_index_items.simps [simp del]

primrec pg_checksum_index_blocks ::
  "mixer \<Rightarrow> TupleDescData \<Rightarrow> IndexTupleData PageData list \<Rightarrow> uint32 \<times> uint64
     \<Rightarrow> uint32 \<times> uint64"
where
  "pg_checksum_index_blocks pg_checksum_data tupdesc [] acc = acc"
| "pg_checksum_index_blocks pg_checksum_data tupdesc (page # rest) acc =
     (if PageIsNew page then pg_checksum_index_blocks pg_checksum_data tupdesc rest acc
      else pg_checksum_index_blocks pg_checksum_data tupdesc rest
             (pg_checksum_index_items pg_checksum_data tupdesc page FirstOffsetNumber acc))"

definition pg_checksum_index :: "mixer \<Rightarrow> backend \<Rightarrow> Oid \<Rightarrow> uint32" where
  "pg_checksum_index pg_checksum_data env indexoid =
     (let rel = relation_open env indexoid;
          tupdesc = RelationGetDescr rel
      in fst (pg_checksum_index_blocks pg_checksum_data tupdesc (rd_index_blocks rel) (0, 0)))"

section \<open>Database checksum (checksum\_database.c)\<close>

record DatabaseChecksumState =
  checksum :: uint64
  n_tuples :: uint64
  n_pages :: uint64
  current_relid :: Oid
  current_relkind :: char
  include_toast :: bool
  include_system :: bool

definition RELKIND_RELATION :: char where "RELKIND_RELATION = CHR ''r''"
definition RELKIND_INDEX :: char where "RELKIND_INDEX = CHR ''i''"
definition RELKIND_MATVIEW :: char where "RELKIND_MATVIEW = CHR ''m''"
definition RELKIND_SEQUENCE :: char where "RELKIND_SEQUENCE = CHR ''S''"
definition RELKIND_TOASTVALUE :: char where "RELKIND_TOASTVALUE = CHR ''t''"
definition RELPERSISTENCE_PERMANENT :: char where "RELPERSISTENCE_PERMANENT = CHR ''p''"
definition RELPERSISTENCE_UNLOGGED :: char where "RELPERSISTENCE_UNLOGGED = CHR ''u''"
definition RELPERSISTENCE_TEMP :: char where "RELPERSISTENCE_TEMP = CHR ''t''"
definition PG_CATALOG_NAMESPACE :: Oid where "PG_CATALOG_NAMESPACE = 11"
definition PG_TOAST_NAMESPACE :: Oid where "PG_TOAST_NAMESPACE = 99"
definition InvalidOid :: Oid where "InvalidOid = 0"

definition OidIsValid :: "Oid \<Rightarrow> bool" where
  "OidIsValid objectId = (objectId \<noteq> InvalidOid)"

text \<open>
  What one entry adds to \<open>state->checksum\<close>. The heap loop of
  \<open>process_relation_for_checksum\<close> XORs in
  \<open>((uint64) tuple_checksum << 32) | (uint64) relid\<close>, the index loop of
  \<open>process_index_for_checksum\<close> XORs in
  \<open>((uint64) idx_checksum << 32) | (uint64) idxRel->rd_id\<close>.
\<close>

definition heap_tuple_term :: "uint32 \<Rightarrow> Oid \<Rightarrow> uint64" where
  "heap_tuple_term tuple_checksum relid = push_bit 32 (ucast tuple_checksum) OR ucast relid"

definition index_tuple_term :: "uint32 \<Rightarrow> Oid \<Rightarrow> uint64" where
  "index_tuple_term idx_checksum rd_id_of_index =
     push_bit 32 (ucast idx_checksum) OR ucast rd_id_of_index"

text \<open>
  The inner loop of \<open>process_index_for_checksum\<close>:
  \<open>for (offnum = FirstOffsetNumber; offnum <= maxoff; offnum = OffsetNumberNext(offnum))\<close>.
  \<open>offnum\<close> is a 16-bit counter; the loop ends because \<open>PageGetMaxOffsetNumber\<close> is at
  most \<open>(65535 - 24) / 4\<close>, so the increment never wraps. \<open>PageGetItem\<close> returns an
  address inside the page, so the test \<open>if (itup)\<close> always succeeds.
\<close>

function process_index_items ::
  "mixer \<Rightarrow> RelationData \<Rightarrow> IndexTupleData PageData \<Rightarrow> OffsetNumber
     \<Rightarrow> DatabaseChecksumState \<Rightarrow> DatabaseChecksumState"
where
  "process_index_items pg_checksum_data idxRel page offnum state =
     (if offnum \<le> PageGetMaxOffsetNumber page then
        let itemId = PageGetItemId page offnum in
        if \<not> ItemIdIsUsed itemId \<or> ItemIdIsDead itemId then
          process_index_items pg_checksum_data idxRel page (offnum + 1) state
        else
          let itup = PageGetItem page itemId;
              idx_checksum =
                pg_index_tuple_checksum pg_checksum_data itup (RelationGetDescr idxRel) offnum
          in process_index_items pg_checksum_data idxRel page (offnum + 1)
               (state\<lparr>checksum := checksum state XOR index_tuple_term idx_checksum (rd_id idxRel),
                      n_tuples := n_tuples state + 1\<rparr>)
      else state)"
  by pat_completeness auto
termination
proof (relation "measure (\<lambda>(m, r, page, offnum, st).
                   Suc (unat (PageGetMaxOffsetNumber page)) - unat offnum)", goal_cases)
  case 1
  show ?case by simp
next
  case (2 m r page offnum st)
  have "unat (pd_lower page - 24) < 2 ^ 16"
    using unsigned_less [of "pd_lower page - 24"] by simp
  then have "unat (pd_lower page - 24) div 4 < 65535" by simp
  then have "unat (PageGetMaxOffsetNumber page) < 65535"
    by (simp add: PageGetMaxOffsetNumber_def SizeOfPageHeaderData_def
          sizeof_ItemIdData_def unat_div)
  moreover have "unat offnum \<le> unat (PageGetMaxOffsetNumber page)"
    using 2 by (simp add: word_le_nat_alt)
  ultimately show ?case by (simp add: unat_word_ariths)
next
  case (3 m r page offnum st)
  have "unat (pd_lower page - 24) < 2 ^ 16"
    using unsigned_less [of "pd_lower page - 24"] by simp
  then have "unat (pd_lower page - 24) div 4 < 65535" by simp
  then have "unat (PageGetMaxOffsetNumber page) < 65535"
    by (simp add: PageGetMaxOffsetNumber_def SizeOfPageHeaderData_def
          sizeof_ItemIdData_def unat_div)
  moreover have "unat offnum \<le> unat (PageGetMaxOffsetNumber page)"
    using 3 by (simp add: word_le_nat_alt)
  ultimately show ?case by (simp add: unat_word_ariths)
qed

declare process_index_items.simps [simp del]

text \<open>
  The outer loop, \<open>for (blkno = 0; blkno < nblocks; blkno++)\<close>: a new page is skipped
  before \<open>n_pages\<close> is counted.
\<close>

primrec process_index_blocks ::
  "mixer \<Rightarrow> RelationData \<Rightarrow> IndexTupleData PageData list
     \<Rightarrow> DatabaseChecksumState \<Rightarrow> DatabaseChecksumState"
where
  "process_index_blocks pg_checksum_data idxRel [] state = state"
| "process_index_blocks pg_checksum_data idxRel (page # rest) state =
     (if PageIsNew page then process_index_blocks pg_checksum_data idxRel rest state
      else
        let state = process_index_items pg_checksum_data idxRel page FirstOffsetNumber state;
            state = state\<lparr>n_pages := n_pages state + 1\<rparr>
        in process_index_blocks pg_checksum_data idxRel rest state)"

definition process_index_for_checksum ::
  "mixer \<Rightarrow> RelationData \<Rightarrow> DatabaseChecksumState \<Rightarrow> DatabaseChecksumState"
where
  "process_index_for_checksum pg_checksum_data idxRel state =
     process_index_blocks pg_checksum_data idxRel (rd_index_blocks idxRel) state"

text \<open>The heap loop of \<open>process_relation_for_checksum\<close>, over the scanned tuples.\<close>

primrec process_heap_tuples ::
  "mixer \<Rightarrow> RelationData \<Rightarrow> Oid \<Rightarrow> ItemPointerData list
     \<Rightarrow> DatabaseChecksumState \<Rightarrow> DatabaseChecksumState"
where
  "process_heap_tuples pg_checksum_data rel relid [] state = state"
| "process_heap_tuples pg_checksum_data rel relid (t_self # rest) state =
     (let page = ReadBuffer rel (ItemPointerGetBlockNumber t_self);
          blkno = ItemPointerGetBlockNumber t_self;
          tuple_checksum =
            pg_tuple_checksum pg_checksum_data page (ItemPointerGetOffsetNumber t_self)
              blkno False
      in process_heap_tuples pg_checksum_data rel relid rest
           (state\<lparr>checksum := checksum state XOR heap_tuple_term tuple_checksum relid,
                  n_tuples := n_tuples state + 1\<rparr>))"

definition process_relation_for_checksum ::
  "mixer \<Rightarrow> backend \<Rightarrow> Oid \<Rightarrow> DatabaseChecksumState \<Rightarrow> DatabaseChecksumState"
where
  "process_relation_for_checksum pg_checksum_data env relid state =
     (let rel = relation_open env relid in
      if rd_relkind rel \<noteq> RELKIND_RELATION \<and> rd_relkind rel \<noteq> RELKIND_INDEX \<and>
         rd_relkind rel \<noteq> RELKIND_MATVIEW \<and> rd_relkind rel \<noteq> RELKIND_SEQUENCE \<and>
         rd_relkind rel \<noteq> RELKIND_TOASTVALUE
      then state
      else
        let state = state\<lparr>current_relid := relid, current_relkind := rd_relkind rel\<rparr>;
            is_index = (rd_relkind rel = RELKIND_INDEX)
        in
        if \<not> is_index
        then process_heap_tuples pg_checksum_data rel relid (rd_heap_scan rel) state
        else process_index_for_checksum pg_checksum_data rel state)"

record Form_pg_class =
  oid :: Oid
  relnamespace :: Oid
  relkind :: char
  relpersistence :: char

text \<open>
  The loop of \<open>pg_database_checksum_internal\<close> over the rows of \<open>pg_class\<close>. The
  progress callback is handed the state only to report it, and the SQL entry point
  passes none; \<open>CHECK_FOR_INTERRUPTS\<close> is outside the model.
\<close>

primrec pg_class_scan ::
  "mixer \<Rightarrow> backend \<Rightarrow> bool \<Rightarrow> bool \<Rightarrow> Form_pg_class list
     \<Rightarrow> DatabaseChecksumState \<Rightarrow> DatabaseChecksumState"
where
  "pg_class_scan pg_checksum_data env incl_system incl_toast [] state = state"
| "pg_class_scan pg_checksum_data env incl_system incl_toast (classForm # rest) state =
     (let relid = oid classForm in
      if \<not> incl_system \<and>
         (relnamespace classForm = PG_CATALOG_NAMESPACE \<or>
          relnamespace classForm = PG_TOAST_NAMESPACE)
      then pg_class_scan pg_checksum_data env incl_system incl_toast rest state
      else if \<not> incl_toast \<and> relkind classForm = RELKIND_TOASTVALUE
      then pg_class_scan pg_checksum_data env incl_system incl_toast rest state
      else if relpersistence classForm = RELPERSISTENCE_UNLOGGED
      then pg_class_scan pg_checksum_data env incl_system incl_toast rest state
      else pg_class_scan pg_checksum_data env incl_system incl_toast rest
             (process_relation_for_checksum pg_checksum_data env relid state))"

text \<open>
  \<open>pg_database_checksum_internal\<close>; \<open>pg_class\<close> is the content of the catalog as the
  scan delivers it.
\<close>

definition pg_database_checksum_internal ::
  "mixer \<Rightarrow> backend \<Rightarrow> Form_pg_class list \<Rightarrow> Oid \<Rightarrow> bool \<Rightarrow> bool \<Rightarrow> error + uint64"
where
  "pg_database_checksum_internal pg_checksum_data env pg_class dboid incl_system incl_toast =
     (let state = \<lparr>checksum = 0, n_tuples = 0, n_pages = 0, current_relid = 0,
                   current_relkind = CHR 0x00,
                   include_toast = incl_toast, include_system = incl_system\<rparr>
      in
      if OidIsValid dboid \<and> dboid \<noteq> MyDatabaseId env
      then Inl ERR_cross_database_checksum_not_supported
      else Inr (checksum (pg_class_scan pg_checksum_data env incl_system incl_toast
                            pg_class state)))"

section \<open>The entries an aggregate visits\<close>

text \<open>
  The offsets an inner index loop reaches on a page when it starts at \<open>offnum\<close>:
  \<open>offnum\<close> to \<open>PageGetMaxOffsetNumber\<close> in ascending order. Of those reached from
  \<open>FirstOffsetNumber\<close>, the live ones are those the loops do not pass with \<open>continue\<close>
  (\<open>!ItemIdIsUsed(itemId) || ItemIdIsDead(itemId)\<close>).
\<close>

definition offsets_from :: "'item PageData \<Rightarrow> OffsetNumber \<Rightarrow> OffsetNumber list" where
  "offsets_from page offnum =
     map of_nat [unat offnum ..< Suc (unat (PageGetMaxOffsetNumber page))]"

definition live_offsets :: "'item PageData \<Rightarrow> OffsetNumber list" where
  "live_offsets page =
     filter (\<lambda>offnum. ItemIdIsUsed (PageGetItemId page offnum) \<and>
                      \<not> ItemIdIsDead (PageGetItemId page offnum))
       (offsets_from page FirstOffsetNumber)"

text \<open>
  The checksums of the index tuples of one page, none for a new page, and those of all
  blocks of an index in block order.
\<close>

definition index_page_fingerprints ::
  "mixer \<Rightarrow> TupleDescData \<Rightarrow> IndexTupleData PageData \<Rightarrow> uint32 list"
where
  "index_page_fingerprints pg_checksum_data tupdesc page =
     (if PageIsNew page then []
      else map (\<lambda>offnum. pg_index_tuple_checksum pg_checksum_data
                           (PageGetItem page (PageGetItemId page offnum)) tupdesc offnum)
             (live_offsets page))"

definition index_fingerprints ::
  "mixer \<Rightarrow> TupleDescData \<Rightarrow> IndexTupleData PageData list \<Rightarrow> uint32 list"
where
  "index_fingerprints pg_checksum_data tupdesc blocks =
     concat (map (index_page_fingerprints pg_checksum_data tupdesc) blocks)"

text \<open>The checksums of the tuples a heap scan delivers, in scan order.\<close>

definition heap_fingerprints :: "mixer \<Rightarrow> RelationData \<Rightarrow> bool \<Rightarrow> uint32 list" where
  "heap_fingerprints pg_checksum_data rel include_header =
     map (\<lambda>t_self. pg_tuple_checksum pg_checksum_data
                      (ReadBuffer rel (ItemPointerGetBlockNumber t_self))
                      (ItemPointerGetOffsetNumber t_self)
                      (ItemPointerGetBlockNumber t_self) include_header)
       (rd_heap_scan rel)"

text \<open>
  The 64-bit terms one relation adds to the database checksum: none for a relation
  kind that \<open>process_relation_for_checksum\<close> returns from at once, one per index tuple
  for an index, one per scanned tuple otherwise.
\<close>

definition relation_terms :: "mixer \<Rightarrow> backend \<Rightarrow> Oid \<Rightarrow> uint64 list" where
  "relation_terms pg_checksum_data env relid =
     (let rel = relation_open env relid in
      if rd_relkind rel \<noteq> RELKIND_RELATION \<and> rd_relkind rel \<noteq> RELKIND_INDEX \<and>
         rd_relkind rel \<noteq> RELKIND_MATVIEW \<and> rd_relkind rel \<noteq> RELKIND_SEQUENCE \<and>
         rd_relkind rel \<noteq> RELKIND_TOASTVALUE
      then []
      else if rd_relkind rel = RELKIND_INDEX
      then map (\<lambda>idx_checksum. index_tuple_term idx_checksum (rd_id rel))
             (index_fingerprints pg_checksum_data (RelationGetDescr rel) (rd_index_blocks rel))
      else map (\<lambda>tuple_checksum. heap_tuple_term tuple_checksum relid)
             (heap_fingerprints pg_checksum_data rel False))"

text \<open>
  The rows of \<open>pg_class\<close> that none of the three \<open>continue\<close> statements of
  \<open>pg_database_checksum_internal\<close> passes over, and the terms of all those relations in
  catalog order.
\<close>

definition class_is_scanned :: "bool \<Rightarrow> bool \<Rightarrow> Form_pg_class \<Rightarrow> bool" where
  "class_is_scanned incl_system incl_toast classForm =
     (\<not> (\<not> incl_system \<and>
         (relnamespace classForm = PG_CATALOG_NAMESPACE \<or>
          relnamespace classForm = PG_TOAST_NAMESPACE)) \<and>
      \<not> (\<not> incl_toast \<and> relkind classForm = RELKIND_TOASTVALUE) \<and>
      relpersistence classForm \<noteq> RELPERSISTENCE_UNLOGGED)"

definition database_terms ::
  "mixer \<Rightarrow> backend \<Rightarrow> bool \<Rightarrow> bool \<Rightarrow> Form_pg_class list \<Rightarrow> uint64 list"
where
  "database_terms pg_checksum_data env incl_system incl_toast pg_class =
     concat (map (\<lambda>classForm. relation_terms pg_checksum_data env (oid classForm))
               (filter (class_is_scanned incl_system incl_toast) pg_class))"

section \<open>Concrete inputs\<close>

text \<open>
  A mixer to evaluate the functions with: it folds over the bytes the step
  \<open>CHECKSUM_COMP\<close> that README.md quotes,
  \<open>__tmp = checksum ^ value; checksum = __tmp * FNV_PRIME ^ (__tmp >> 17)\<close>.
  No general theorem below depends on it.
\<close>

definition FNV_PRIME :: uint32 where "FNV_PRIME = 16777619"

definition CHECKSUM_COMP :: "uint32 \<Rightarrow> uint32 \<Rightarrow> uint32" where
  "CHECKSUM_COMP c v = (let tmp = c XOR v in (tmp * FNV_PRIME) XOR drop_bit 17 tmp)"

definition readme_mixer :: mixer where
  "readme_mixer data init_value = fold (\<lambda>b c. CHECKSUM_COMP c (ucast b)) data init_value"

definition le32 :: "uint32 \<Rightarrow> byte list" where
  "le32 w = [ucast w, ucast (drop_bit 8 w), ucast (drop_bit 16 w), ucast (drop_bit 24 w)]"

text \<open>
  A heap tuple with a 24-byte header (\<open>t_xmin\<close>, \<open>t_xmax\<close>, 14 bytes for \<open>t_cid\<close>,
  \<open>t_ctid\<close> and the infomasks, \<open>t_hoff\<close>, padding) followed by its data bytes.
\<close>

definition sample_tuple :: "TransactionId \<Rightarrow> TransactionId \<Rightarrow> byte list \<Rightarrow> HeapTupleHeaderData" where
  "sample_tuple xmin xmax data =
     \<lparr>t_xmin = xmin, t_xmax = xmax, t_hoff = 24,
      t_mem = le32 xmin @ le32 xmax @ [0, 0, 0, 0, 0, 0, 0, 0, 0, 0, 0, 0, 0, 0] @ [24, 0] @ data\<rparr>"

text \<open>
  A heap page with three line pointers: slot 1 holds the given tuple (\<open>n\<close> data
  bytes), slot 2 a tuple that is all header, slot 3 is unused.
\<close>

definition sample_page :: "HeapTupleHeaderData \<Rightarrow> 15 word \<Rightarrow> HeapTupleHeaderData PageData" where
  "sample_page tuple n =
     \<lparr>pd_lower = 36, pd_upper = 8000,
      pd_linp = (\<lambda>i. if i = 0 then \<lparr>lp_off = 8160, lp_flags = LP_NORMAL, lp_len = 24 + n\<rparr>
                     else if i = 1 then \<lparr>lp_off = 8128, lp_flags = LP_NORMAL, lp_len = 24\<rparr>
                     else \<lparr>lp_off = 0, lp_flags = LP_UNUSED, lp_len = 0\<rparr>),
      pd_item = (\<lambda>off. if off = 8160 then tuple else sample_tuple 700 0 [])\<rparr>"

definition page_A :: "HeapTupleHeaderData PageData" where
  "page_A = sample_page (sample_tuple 4 6 [0x2A, 0x07]) 2"

definition page_B :: "HeapTupleHeaderData PageData" where
  "page_B = sample_page (sample_tuple 5 7 [0x2A, 0x07]) 2"

definition page_C :: "HeapTupleHeaderData PageData" where
  "page_C = sample_page (sample_tuple 700 0 [0x2A, 0x07]) 2"

definition page_D :: "HeapTupleHeaderData PageData" where
  "page_D = sample_page (sample_tuple 701 1 [0x2A, 0x07]) 2"

text \<open>
  A page like \<open>page_A\<close> on which pruning has left a dead line pointer in slot 4:
  \<open>LP_DEAD\<close> with
  \<open>lp_off = 0\<close> and \<open>lp_len = 0\<close>. \<open>PageGetItem\<close> for it is the address of the page
  itself, so the tuple header the code reads there is the page header: \<open>pd_lsn\<close>
  (0/16B3A58) where \<open>t_xmin\<close> and \<open>t_xmax\<close> would be, and byte 22, the third byte of
  \<open>pd_prune_xid\<close> (here 0x000A02BC), where \<open>t_hoff\<close> would be. The memory from that
  address is the page header followed by the four line pointers.
\<close>

definition page_header_as_tuple :: HeapTupleHeaderData where
  "page_header_as_tuple =
     \<lparr>t_xmin = 0, t_xmax = 0x016B3A58, t_hoff = 0x0A,
      t_mem = [0, 0, 0, 0, 0x58, 0x3A, 0x6B, 0x01, 0, 0, 0, 0,
               0x28, 0x00, 0x40, 0x1F, 0x00, 0x20, 0x04, 0x20, 0xBC, 0x02, 0x0A, 0x00,
               0xE0, 0x9F, 0x34, 0x00, 0xC0, 0x9F, 0x30, 0x00,
               0x00, 0x00, 0x00, 0x00, 0x00, 0x80, 0x01, 0x00]\<rparr>"

definition page_pruned :: "HeapTupleHeaderData PageData" where
  "page_pruned =
     \<lparr>pd_lower = 40, pd_upper = 8000,
      pd_linp = (\<lambda>i. if i = 0 then \<lparr>lp_off = 8160, lp_flags = LP_NORMAL, lp_len = 26\<rparr>
                     else if i = 1 then \<lparr>lp_off = 8128, lp_flags = LP_NORMAL, lp_len = 24\<rparr>
                     else if i = 3 then \<lparr>lp_off = 0, lp_flags = LP_DEAD, lp_len = 0\<rparr>
                     else \<lparr>lp_off = 0, lp_flags = LP_UNUSED, lp_len = 0\<rparr>),
      pd_item = (\<lambda>off. if off = 8160 then sample_tuple 4 6 [0x2A, 0x07]
                       else if off = 8128 then sample_tuple 700 0 []
                       else page_header_as_tuple)\<rparr>"

text \<open>
  A tuple descriptor with three columns: an \<open>int4\<close> (type 23), a \<open>text\<close> (type 25) and
  a dropped column, whose \<open>atttypid\<close> is 0.
\<close>

definition sample_desc :: TupleDescData where
  "sample_desc =
     \<lparr>natts = 3, tdtypeid = 0,
      attrs = (\<lambda>i. if i = 0 then \<lparr>atttypid = 23, atttypmod = - 1\<rparr>
                   else if i = 1 then \<lparr>atttypid = 25, atttypmod = - 1\<rparr>
                   else \<lparr>atttypid = 0, atttypmod = - 1\<rparr>)\<rparr>"

text \<open>
  Three 16-byte index tuples, pointing at the heap tuples (0, 1), (1, 1) and (0, 2),
  and two index pages: the first with a tuple in slots 1 and 3 and a dead line pointer
  in slot 2, the second with one tuple.
\<close>

definition sample_index_tuple :: IndexTupleData where
  "sample_index_tuple =
     \<lparr>t_tid = \<lparr>ip_blkid = 0, ip_posid = 1\<rparr>, t_info = 16,
      it_mem = [0, 0, 0, 0, 1, 0, 16, 0, 0x2A, 0, 0, 0, 0, 0, 0, 0]\<rparr>"

definition sample_index_tuple_2 :: IndexTupleData where
  "sample_index_tuple_2 =
     \<lparr>t_tid = \<lparr>ip_blkid = 1, ip_posid = 1\<rparr>, t_info = 16,
      it_mem = [0, 0, 1, 0, 1, 0, 16, 0, 0x2B, 0, 0, 0, 0, 0, 0, 0]\<rparr>"

definition sample_index_tuple_3 :: IndexTupleData where
  "sample_index_tuple_3 =
     \<lparr>t_tid = \<lparr>ip_blkid = 0, ip_posid = 2\<rparr>, t_info = 16,
      it_mem = [0, 0, 0, 0, 2, 0, 16, 0, 0x2C, 0, 0, 0, 0, 0, 0, 0]\<rparr>"

definition sample_index_page :: "IndexTupleData PageData" where
  "sample_index_page =
     \<lparr>pd_lower = 36, pd_upper = 8000,
      pd_linp = (\<lambda>i. if i = 0 then \<lparr>lp_off = 8176, lp_flags = LP_NORMAL, lp_len = 16\<rparr>
                     else if i = 1 then \<lparr>lp_off = 0, lp_flags = LP_DEAD, lp_len = 0\<rparr>
                     else if i = 2 then \<lparr>lp_off = 8160, lp_flags = LP_NORMAL, lp_len = 16\<rparr>
                     else \<lparr>lp_off = 0, lp_flags = LP_UNUSED, lp_len = 0\<rparr>),
      pd_item = (\<lambda>off. if off = 8176 then sample_index_tuple else sample_index_tuple_2)\<rparr>"

definition sample_index_page_2 :: "IndexTupleData PageData" where
  "sample_index_page_2 =
     \<lparr>pd_lower = 28, pd_upper = 8000,
      pd_linp = (\<lambda>i. if i = 0 then \<lparr>lp_off = 8176, lp_flags = LP_NORMAL, lp_len = 16\<rparr>
                     else \<lparr>lp_off = 0, lp_flags = LP_UNUSED, lp_len = 0\<rparr>),
      pd_item = (\<lambda>off. sample_index_tuple_3)\<rparr>"

text \<open>
  A relation of a given OID and kind with a given heap scan: every heap block looks
  like \<open>page_A\<close>; the index storage is the first index page, a page that was never
  initialised, and the second index page.
\<close>

definition sample_relation :: "Oid \<Rightarrow> char \<Rightarrow> ItemPointerData list \<Rightarrow> RelationData" where
  "sample_relation relid kind scan =
     \<lparr>rd_id = relid, rd_relkind = kind, rd_att = sample_desc,
      rd_heap_scan = scan,
      rd_heap_block = (\<lambda>blkno. page_A),
      rd_index_blocks =
        [sample_index_page, sample_index_page\<lparr>pd_upper := 0\<rparr>, sample_index_page_2]\<rparr>"

text \<open>
  A backend: types 23 (\<open>int4\<close>, by value, 4 bytes) and 25 (\<open>text\<close>, varlena) are in the
  type cache; a \<open>Datum\<close> lies in memory least significant byte first; the datum 4096
  points at the short varlena \<open>ab\<close> (one header byte, 7, then the two characters);
  every row has 42 in column 1, that text in column 2 and a stored value 7 in the
  dropped column 3; relation 16399 is an index, 16387 and 16393 are toast tables, every
  other OID is an ordinary table; the scan of table 16384 delivers the tuples at (0, 1)
  and (1, 1), the scan of any other relation the tuple at (0, 1).
\<close>

definition sample_backend :: backend where
  "sample_backend =
     \<lparr>SearchSysCache1_TYPEOID =
        (\<lambda>typid. if typid = 23 then Some \<lparr>typbyval = True, typlen = 4\<rparr>
                  else if typid = 25 then Some \<lparr>typbyval = False, typlen = - 1\<rparr>
                  else None),
      datum_mem = (\<lambda>v. le32 (ucast v) @ le32 (ucast (drop_bit 32 v))),
      pointer_mem = (\<lambda>v. []),
      detoast_mem = (\<lambda>v. if v = 4096 then [0x07, 0x61, 0x62] else []),
      VARSIZE_ANY = (\<lambda>mem. case mem of [] \<Rightarrow> 0 | b # _ \<Rightarrow> ucast (drop_bit 1 b)),
      heap_getattr =
        (\<lambda>tuple attnum tupleDesc.
           if attnum = 1 then (42, False)
           else if attnum = 2 then (4096, False)
           else if attnum = 3 then (7, False)
           else (0, True)),
      relation_open =
        (\<lambda>relid. sample_relation relid
           (if relid = 16399 then RELKIND_INDEX
            else if relid = 16387 \<or> relid = 16393 then RELKIND_TOASTVALUE
            else RELKIND_RELATION)
           (if relid = 16384
            then [\<lparr>ip_blkid = 0, ip_posid = 1\<rparr>, \<lparr>ip_blkid = 1, ip_posid = 1\<rparr>]
            else [\<lparr>ip_blkid = 0, ip_posid = 1\<rparr>])),
      MyDatabaseId = 5\<rparr>"

text \<open>
  The same backend with the two-tuple heap scan and the three index blocks in the
  opposite order.
\<close>

definition sample_backend_reversed :: backend where
  "sample_backend_reversed =
     sample_backend
       \<lparr>relation_open :=
          (\<lambda>relid. (relation_open sample_backend relid)
             \<lparr>rd_heap_scan := [\<lparr>ip_blkid = 1, ip_posid = 1\<rparr>, \<lparr>ip_blkid = 0, ip_posid = 1\<rparr>],
              rd_index_blocks :=
                [sample_index_page_2, sample_index_page\<lparr>pd_upper := 0\<rparr>,
                 sample_index_page]\<rparr>)\<rparr>"

text \<open>
  Rows of \<open>pg_class\<close>: a table in schema \<open>public\<close> (2200), its toast table in
  \<open>pg_toast\<close>, a temporary table and its toast table in the session's temporary
  schemas, an unlogged table, an index, and the catalog \<open>pg_class\<close> itself.
\<close>

definition class_table :: Form_pg_class where
  "class_table = \<lparr>oid = 16384, relnamespace = 2200, relkind = RELKIND_RELATION,
                   relpersistence = RELPERSISTENCE_PERMANENT\<rparr>"

definition class_toast :: Form_pg_class where
  "class_toast = \<lparr>oid = 16387, relnamespace = PG_TOAST_NAMESPACE, relkind = RELKIND_TOASTVALUE,
                   relpersistence = RELPERSISTENCE_PERMANENT\<rparr>"

definition class_temp_table :: Form_pg_class where
  "class_temp_table = \<lparr>oid = 16390, relnamespace = 16500, relkind = RELKIND_RELATION,
                        relpersistence = RELPERSISTENCE_TEMP\<rparr>"

definition class_temp_toast :: Form_pg_class where
  "class_temp_toast = \<lparr>oid = 16393, relnamespace = 16501, relkind = RELKIND_TOASTVALUE,
                        relpersistence = RELPERSISTENCE_TEMP\<rparr>"

definition class_unlogged :: Form_pg_class where
  "class_unlogged = \<lparr>oid = 16396, relnamespace = 2200, relkind = RELKIND_RELATION,
                      relpersistence = RELPERSISTENCE_UNLOGGED\<rparr>"

definition class_index :: Form_pg_class where
  "class_index = \<lparr>oid = 16399, relnamespace = 2200, relkind = RELKIND_INDEX,
                   relpersistence = RELPERSISTENCE_PERMANENT\<rparr>"

definition class_catalog :: Form_pg_class where
  "class_catalog = \<lparr>oid = 1259, relnamespace = PG_CATALOG_NAMESPACE, relkind = RELKIND_RELATION,
                     relpersistence = RELPERSISTENCE_PERMANENT\<rparr>"

section \<open>Auxiliary facts\<close>

lemma low_bit_cleared_not_all_ones: "(x AND 0xFFFFFFFE) \<noteq> (0xFFFFFFFF :: uint32)"
proof
  assume "x AND 0xFFFFFFFE = (0xFFFFFFFF :: uint32)"
  then have "bit (x AND (0xFFFFFFFE :: uint32)) 0 = bit (0xFFFFFFFF :: uint32) 0" by simp
  then show False by (simp add: bit_and_iff)
qed

lemma unset_bit_0_eq_mask: "unset_bit 0 (x :: uint32) = x AND 0xFFFFFFFE"
proof -
  have "(0xFFFFFFFE :: uint32) = NOT 1" by simp
  then show ?thesis by (simp only: unset_bit_eq_and_not) simp
qed

lemma null_mark_remap_spec_code:
  "null_mark_remap_spec seed fp =
     (if fp = CHECKSUM_NULL then (CHECKSUM_NULL XOR seed) AND 0xFFFFFFFE else fp)"
proof -
  have "NULL_MARK = CHECKSUM_NULL" by (simp add: NULL_MARK_def CHECKSUM_NULL_def)
  then show ?thesis by (simp only: null_mark_remap_spec_def unset_bit_0_eq_mask)
qed

lemma sel_tuple_loc: "tuple_location_hash b off = location_seed_spec b off"
  by (simp add: tuple_location_hash_def location_seed_spec_def)

lemmas sample_heap_simps =
  page_A_def page_B_def page_C_def page_D_def sample_page_def sample_tuple_def le32_def
  PageGetMaxOffsetNumber_def FirstOffsetNumber_def SizeOfPageHeaderData_def
  sizeof_ItemIdData_def PageGetItemId_def PageGetItem_def ItemIdIsUsed_def
  ItemIdGetLength_def LP_NORMAL_def LP_UNUSED_def

lemmas readme_mixer_simps = readme_mixer_def CHECKSUM_COMP_def FNV_PRIME_def

text \<open>With the header excluded, on a used slot in range whose tuple is longer than its header.\<close>

lemma pg_tuple_checksum_data_only:
  assumes "FirstOffsetNumber \<le> offnum" and "offnum \<le> PageGetMaxOffsetNumber page"
    and "ItemIdIsUsed (PageGetItemId page offnum)"
    and "ItemIdGetLength (PageGetItemId page offnum)
           \<noteq> ucast (t_hoff (PageGetItem page (PageGetItemId page offnum)))"
  shows "pg_tuple_checksum mix page offnum blkno False =
     (let tuple = PageGetItem page (PageGetItemId page offnum);
          seed = tuple_location_hash blkno offnum;
          raw = mix (mem_span (t_mem tuple) (unat (t_hoff tuple))
                       (unat (ItemIdGetLength (PageGetItemId page offnum) - ucast (t_hoff tuple))))
                  seed
                XOR seed XOR (t_xmin tuple XOR t_xmax tuple)
      in if raw = CHECKSUM_NULL then (CHECKSUM_NULL XOR seed) AND 0xFFFFFFFE else raw)"
proof -
  have inrange: "\<not> (offnum < FirstOffsetNumber \<or> offnum > PageGetMaxOffsetNumber page)"
    using assms(1,2) by (simp add: not_less)
  show ?thesis
    using inrange assms(3,4)
    by (simp add: pg_tuple_checksum_def Let_def HeapTupleHeaderGetRawXmin_def
          HeapTupleHeaderGetRawXmax_def xor.assoc)
qed

text \<open>The two halves of a 64-bit term.\<close>

lemma heap_tuple_term_low: "ucast (heap_tuple_term fp salt) = salt"
  unfolding heap_tuple_term_def
  by (rule bit_word_eqI) (auto simp: bit_simps)

lemma heap_tuple_term_high: "ucast (drop_bit 32 (heap_tuple_term fp salt)) = fp"
  unfolding heap_tuple_term_def
  by (rule bit_word_eqI) (auto simp: bit_simps dest: bit_imp_le_length)

lemma pg_checksum_table_loop_fold:
  "pg_checksum_table_loop mix rel h ts acc =
     fold (\<lambda>t a. a XOR pg_tuple_checksum mix (ReadBuffer rel (ItemPointerGetBlockNumber t))
              (ItemPointerGetOffsetNumber t) (ItemPointerGetBlockNumber t) h) ts acc"
  by (induction ts arbitrary: acc) (simp_all add: Let_def)

lemma xor_fold_perm:
  fixes g :: "'a \<Rightarrow> 'w::len word"
  assumes "mset xs = mset ys"
  shows "fold (\<lambda>x a. a XOR g x) xs acc = fold (\<lambda>x a. a XOR g x) ys acc"
proof -
  have "fold (\<lambda>x a. a XOR g x) xs = fold (\<lambda>x a. a XOR g x) ys"
    by (rule fold_multiset_equiv) (auto simp: fun_eq_iff xor.assoc xor.left_commute xor.commute assms)
  then show ?thesis by simp
qed

lemma process_heap_tuples_checksum:
  "checksum (process_heap_tuples mix rel relid ts st) =
     fold (\<lambda>t a. a XOR heap_tuple_term
              (pg_tuple_checksum mix (ReadBuffer rel (ItemPointerGetBlockNumber t))
                 (ItemPointerGetOffsetNumber t) (ItemPointerGetBlockNumber t) False) relid)
       ts (checksum st)"
  by (induction ts arbitrary: st) (simp_all add: Let_def)


lemma process_index_items_checksum_aux:
  fixes st :: DatabaseChecksumState
  shows "\<forall>s z. checksum z = 0 \<longrightarrow>
     checksum (process_index_items mix rel page offnum s)
       = checksum s XOR checksum (process_index_items mix rel page offnum z)"
proof (induction mix rel page offnum st rule: process_index_items.induct)
  case (1 mix rel page offnum st)
  show ?case
  proof (intro allI impI)
    fix s z :: DatabaseChecksumState
    assume z: "checksum z = 0"
    show "checksum (process_index_items mix rel page offnum s)
            = checksum s XOR checksum (process_index_items mix rel page offnum z)"
    proof (cases "offnum \<le> PageGetMaxOffsetNumber page")
      case False
      then show ?thesis using z by (simp add: process_index_items.simps [of _ _ _ offnum])
    next
      case inr: True
      show ?thesis
      proof (cases "\<not> ItemIdIsUsed (PageGetItemId page offnum) \<or> ItemIdIsDead (PageGetItemId page offnum)")
        case True
        have "checksum (process_index_items mix rel page (offnum + 1) s)
                = checksum s XOR checksum (process_index_items mix rel page (offnum + 1) z)"
          using 1(1) [OF inr refl True] z by blast
        with inr True show ?thesis
          by (simp add: process_index_items.simps [of _ _ _ offnum])
      next
        case False
        let ?t = "index_tuple_term (pg_index_tuple_checksum mix
                     (PageGetItem page (PageGetItemId page offnum)) (RelationGetDescr rel) offnum) (rd_id rel)"
        let ?s' = "s\<lparr>checksum := checksum s XOR ?t, n_tuples := n_tuples s + 1\<rparr>"
        let ?z' = "z\<lparr>checksum := checksum z XOR ?t, n_tuples := n_tuples z + 1\<rparr>"
        have ih: "checksum (process_index_items mix rel page (offnum + 1) u)
                = checksum u XOR checksum (process_index_items mix rel page (offnum + 1) z)" for u
          using 1(2) [OF inr refl False refl refl] z by blast
        have "checksum (process_index_items mix rel page offnum s)
                = checksum (process_index_items mix rel page (offnum + 1) ?s')"
          using inr False by (simp add: process_index_items.simps [of _ _ _ offnum] Let_def)
        also have "\<dots> = (checksum s XOR ?t) XOR checksum (process_index_items mix rel page (offnum + 1) z)"
          using ih [of ?s'] by simp
        finally have l: "checksum (process_index_items mix rel page offnum s)
           = (checksum s XOR ?t) XOR checksum (process_index_items mix rel page (offnum + 1) z)" .
        have "checksum (process_index_items mix rel page offnum z)
                = checksum (process_index_items mix rel page (offnum + 1) ?z')"
          using inr False by (simp add: process_index_items.simps [of _ _ _ offnum] Let_def)
        also have "\<dots> = ?t XOR checksum (process_index_items mix rel page (offnum + 1) z)"
          using ih [of ?z'] z by simp
        finally have r: "checksum (process_index_items mix rel page offnum z)
           = ?t XOR checksum (process_index_items mix rel page (offnum + 1) z)" .
        show ?thesis unfolding l r by (simp add: xor.assoc)
      qed
    qed
  qed
qed


lemma process_index_items_checksum:
  "checksum z = 0 \<Longrightarrow>
     checksum (process_index_items mix rel page offnum s)
       = checksum s XOR checksum (process_index_items mix rel page offnum z)"
  using process_index_items_checksum_aux [of mix rel page offnum] by blast

lemma process_index_blocks_checksum_aux:
  assumes z: "checksum z = 0"
  shows "checksum (process_index_blocks mix rel pages s)
           = checksum s XOR checksum (process_index_blocks mix rel pages z)"
proof (induction pages arbitrary: s)
  case Nil
  show ?case using z by simp
next
  case (Cons page rest)
  show ?case
  proof (cases "PageIsNew page")
    case True
    then show ?thesis using Cons.IH [of s] by simp
  next
    case False
    let ?s1 = "(process_index_items mix rel page FirstOffsetNumber s)
                 \<lparr>n_pages := n_pages (process_index_items mix rel page FirstOffsetNumber s) + 1\<rparr>"
    let ?z1 = "(process_index_items mix rel page FirstOffsetNumber z)
                 \<lparr>n_pages := n_pages (process_index_items mix rel page FirstOffsetNumber z) + 1\<rparr>"
    have l: "checksum (process_index_blocks mix rel (page # rest) s)
               = checksum ?s1 XOR checksum (process_index_blocks mix rel rest z)"
      using False Cons.IH [of ?s1] by (simp add: Let_def)
    have r: "checksum (process_index_blocks mix rel (page # rest) z)
               = checksum ?z1 XOR checksum (process_index_blocks mix rel rest z)"
      using False Cons.IH [of ?z1] by (simp add: Let_def)
    have "checksum ?s1 = checksum s XOR checksum ?z1"
      using process_index_items_checksum [OF z, of mix rel page FirstOffsetNumber s] by simp
    then show ?thesis unfolding l r by (simp add: xor.assoc)
  qed
qed

lemma xor_fold_acc:
  fixes g :: "'a \<Rightarrow> 'w::len word"
  shows "fold (\<lambda>x a. a XOR g x) xs acc = acc XOR fold (\<lambda>x a. a XOR g x) xs 0"
proof (induction xs arbitrary: acc)
  case Nil
  show ?case by simp
next
  case (Cons x xs)
  show ?case using Cons [of "acc XOR g x"] Cons [of "g x"] by (simp add: xor.assoc)
qed

lemma process_relation_for_checksum_checksum:
  assumes z: "checksum z = 0"
  shows "checksum (process_relation_for_checksum mix env relid s)
           = checksum s XOR checksum (process_relation_for_checksum mix env relid z)"
proof -
  let ?rel = "relation_open env relid"
  have heap: "checksum (process_heap_tuples mix ?rel relid ts
                 (s\<lparr>current_relid := relid, current_relkind := k\<rparr>))
      = checksum s XOR checksum (process_heap_tuples mix ?rel relid ts
                 (z\<lparr>current_relid := relid, current_relkind := k\<rparr>))" for ts k
    unfolding process_heap_tuples_checksum
    using xor_fold_acc [where acc = "checksum s"] z by simp
  have idx: "checksum (process_index_for_checksum mix ?rel
                 (s\<lparr>current_relid := relid, current_relkind := k\<rparr>))
      = checksum s XOR checksum (process_index_for_checksum mix ?rel
                 (z\<lparr>current_relid := relid, current_relkind := k\<rparr>))" for k
  proof -
    have "checksum (z\<lparr>current_relid := relid, current_relkind := k\<rparr>) = 0" using z by simp
    from process_index_blocks_checksum_aux [OF this, of mix ?rel "rd_index_blocks ?rel"
        "s\<lparr>current_relid := relid, current_relkind := k\<rparr>"]
    show ?thesis by (simp add: process_index_for_checksum_def)
  qed
  show ?thesis
    using heap idx z by (simp add: process_relation_for_checksum_def Let_def)
qed


lemma pg_class_scan_checksum:
  assumes z: "checksum z = 0"
  shows "checksum (pg_class_scan mix env s t classes st)
           = fold (\<lambda>c a. a XOR
                     (if (\<not> s \<and> (relnamespace c = PG_CATALOG_NAMESPACE
                                  \<or> relnamespace c = PG_TOAST_NAMESPACE))
                         \<or> (\<not> t \<and> relkind c = RELKIND_TOASTVALUE)
                         \<or> relpersistence c = RELPERSISTENCE_UNLOGGED
                      then 0
                      else checksum (process_relation_for_checksum mix env (oid c) z)))
               classes (checksum st)"
proof -
  define skip where "skip = (\<lambda>c :: Form_pg_class. (\<not> s \<and> (relnamespace c = PG_CATALOG_NAMESPACE
                                  \<or> relnamespace c = PG_TOAST_NAMESPACE))
                         \<or> (\<not> t \<and> relkind c = RELKIND_TOASTVALUE)
                         \<or> relpersistence c = RELPERSISTENCE_UNLOGGED)"
  define g where "g = (\<lambda>c :: Form_pg_class. if skip c then 0
                            else checksum (process_relation_for_checksum mix env (oid c) z))"
  have "checksum (pg_class_scan mix env s t classes st)
          = fold (\<lambda>c a. a XOR g c) classes (checksum st)"
  proof (induction classes arbitrary: st)
    case Nil
    show ?case by simp
  next
    case (Cons c cs)
    show ?case
    proof (cases "skip c")
      case True
      then have "pg_class_scan mix env s t (c # cs) st = pg_class_scan mix env s t cs st"
        unfolding skip_def by (auto simp: Let_def)
      moreover have "g c = 0" using True by (simp add: g_def)
      ultimately show ?thesis using Cons.IH [of st] by simp
    next
      case False
      then have "pg_class_scan mix env s t (c # cs) st
                   = pg_class_scan mix env s t cs (process_relation_for_checksum mix env (oid c) st)"
        unfolding skip_def by (auto simp: Let_def)
      moreover have "g c = checksum (process_relation_for_checksum mix env (oid c) z)"
        using False by (simp add: g_def)
      moreover note process_relation_for_checksum_checksum [OF z, of mix env "oid c" st]
      ultimately show ?thesis
        using Cons.IH [of "process_relation_for_checksum mix env (oid c) st"] by simp
    qed
  qed
  then show ?thesis unfolding g_def skip_def .
qed

lemma pg_checksum_index_items_fst_aux:
  fixes acc :: "uint32 \<times> uint64"
  shows "\<forall>c n k. fst (pg_checksum_index_items mix tupdesc page offnum (c, n))
           = c XOR fst (pg_checksum_index_items mix tupdesc page offnum (0, k))"
proof (induction mix tupdesc page offnum acc rule: pg_checksum_index_items.induct)
  case (1 mix tupdesc page offnum index_checksum tuples_seen)
  show ?case
  proof (intro allI)
    fix c :: uint32 and n k :: uint64
    show "fst (pg_checksum_index_items mix tupdesc page offnum (c, n))
           = c XOR fst (pg_checksum_index_items mix tupdesc page offnum (0, k))"
    proof (cases "offnum \<le> PageGetMaxOffsetNumber page")
      case False
      then show ?thesis by (simp add: pg_checksum_index_items.simps [of _ _ _ offnum])
    next
      case inr: True
      show ?thesis
      proof (cases "\<not> ItemIdIsUsed (PageGetItemId page offnum) \<or> ItemIdIsDead (PageGetItemId page offnum)")
        case True
        have "fst (pg_checksum_index_items mix tupdesc page (offnum + 1) (c, n))
                = c XOR fst (pg_checksum_index_items mix tupdesc page (offnum + 1) (0, k))"
          using 1(1) [OF inr refl True] by blast
        with inr True show ?thesis
          by (simp add: pg_checksum_index_items.simps [of _ _ _ offnum])
      next
        case False
        let ?t = "pg_index_tuple_checksum mix (PageGetItem page (PageGetItemId page offnum))
                    tupdesc offnum"
        have ih: "fst (pg_checksum_index_items mix tupdesc page (offnum + 1) (c', n'))
                = c' XOR fst (pg_checksum_index_items mix tupdesc page (offnum + 1) (0, k'))"
          for c' n' k'
          using 1(2) [OF inr refl False refl refl] by blast
        have l: "fst (pg_checksum_index_items mix tupdesc page offnum (c, n))
                = (c XOR ?t) XOR fst (pg_checksum_index_items mix tupdesc page (offnum + 1) (0, 0))"
          using inr False ih [of "c XOR ?t" "n + 1" 0]
          by (simp add: pg_checksum_index_items.simps [of _ _ _ offnum] Let_def)
        have r: "fst (pg_checksum_index_items mix tupdesc page offnum (0, k))
                = ?t XOR fst (pg_checksum_index_items mix tupdesc page (offnum + 1) (0, 0))"
          using inr False ih [of "?t" "k + 1" 0]
          by (simp add: pg_checksum_index_items.simps [of _ _ _ offnum] Let_def)
        show ?thesis unfolding l r by (simp add: xor.assoc)
      qed
    qed
  qed
qed

lemma pg_checksum_index_blocks_fst:
  "fst (pg_checksum_index_blocks mix tupdesc pages acc)
     = fold (\<lambda>page a. a XOR
               (if PageIsNew page then 0
                else fst (pg_checksum_index_items mix tupdesc page FirstOffsetNumber (0, 0))))
         pages (fst acc)"
proof (induction pages arbitrary: acc)
  case Nil
  show ?case by simp
next
  case (Cons page rest)
  obtain c n where acc: "acc = (c, n)" by (cases acc)
  show ?case
  proof (cases "PageIsNew page")
    case True
    then show ?thesis using Cons.IH [of acc] by simp
  next
    case False
    have "fst (pg_checksum_index_items mix tupdesc page FirstOffsetNumber (c, n))
            = c XOR fst (pg_checksum_index_items mix tupdesc page FirstOffsetNumber (0, 0))"
      using pg_checksum_index_items_fst_aux [of mix tupdesc page FirstOffsetNumber] by blast
    then show ?thesis
      using False Cons.IH [of "pg_checksum_index_items mix tupdesc page FirstOffsetNumber acc"]
      by (simp add: acc)
  qed
qed

lemmas sample_backend_simps =
  sample_backend_def sample_backend_reversed_def sample_relation_def sample_desc_def
  sample_index_page_def sample_index_page_2_def
  sample_index_tuple_def sample_index_tuple_2_def sample_index_tuple_3_def
  class_table_def class_toast_def class_temp_table_def class_temp_toast_def
  class_unlogged_def class_index_def class_catalog_def
  RELKIND_RELATION_def RELKIND_INDEX_def RELKIND_MATVIEW_def RELKIND_SEQUENCE_def
  RELKIND_TOASTVALUE_def RELPERSISTENCE_PERMANENT_def RELPERSISTENCE_UNLOGGED_def
  RELPERSISTENCE_TEMP_def PG_CATALOG_NAMESPACE_def PG_TOAST_NAMESPACE_def

text \<open>Rows of \<open>pg_class\<close> that the scan passes over, and the toast flag.\<close>

lemma pg_class_scan_filter_unlogged:
  "pg_class_scan mix env s t classes st
     = pg_class_scan mix env s t
         (filter (\<lambda>c. relpersistence c \<noteq> RELPERSISTENCE_UNLOGGED) classes) st"
  by (induction classes arbitrary: st) (auto simp: Let_def)

lemma pg_class_scan_filter_system:
  "pg_class_scan mix env False t classes st
     = pg_class_scan mix env False t
         (filter (\<lambda>c. relnamespace c \<noteq> PG_CATALOG_NAMESPACE
                      \<and> relnamespace c \<noteq> PG_TOAST_NAMESPACE) classes) st"
  by (induction classes arbitrary: st) (auto simp: Let_def)

lemma pg_class_scan_toast_flag:
  assumes "\<forall>c \<in> set classes. relkind c = RELKIND_TOASTVALUE \<longrightarrow>
             relnamespace c = PG_TOAST_NAMESPACE \<or> relnamespace c = PG_CATALOG_NAMESPACE
             \<or> relpersistence c = RELPERSISTENCE_UNLOGGED"
  shows "pg_class_scan mix env False True classes st
           = pg_class_scan mix env False False classes st"
  using assms by (induction classes arbitrary: st) (auto simp: Let_def)

text \<open>Evaluation on the concrete inputs.\<close>

lemma page_A_fingerprint: "pg_tuple_checksum readme_mixer page_A 1 0 False = 1735033345"
  by (simp add: pg_tuple_checksum_def sample_heap_simps readme_mixer_simps mem_span_def
        tuple_location_hash_def HeapTupleHeaderGetRawXmin_def HeapTupleHeaderGetRawXmax_def
        CHECKSUM_NULL_def Let_def)

lemmas database_eval_simps =
  pg_database_checksum_internal_def process_relation_for_checksum_def ReadBuffer_def
  ItemPointerGetBlockNumber_def ItemPointerGetOffsetNumber_def heap_tuple_term_def
  OidIsValid_def InvalidOid_def Let_def sample_backend_simps page_A_fingerprint

lemmas column_eval_simps =
  pg_checksum_column_def pg_tuple_column_checksum_def pg_column_checksum_internal_def
  RelationGetDescr_def TupleDescAttr_def ReadBuffer_def ItemPointerGetBlockNumber_def
  ItemPointerGetOffsetNumber_def sample_backend_simps sample_heap_simps Let_def
  word_sle_eq word_sless_alt

text \<open>
  A relation with a single scanned tuple leaves its OID in the low half of the
  aggregate, whatever the mixer returns: the temporary relations of the sample catalog
  count for every \<open>pg_checksum_data\<close>.
\<close>

lemma heap_tuple_term_nonzero: "salt \<noteq> 0 \<Longrightarrow> heap_tuple_term fp salt \<noteq> 0"
  using heap_tuple_term_low [of fp salt] by auto

lemma temp_relations_count_for_every_mixer:
  "pg_database_checksum_internal mix sample_backend [class_temp_table] 5 True True \<noteq> Inr 0"
  "pg_database_checksum_internal mix sample_backend [class_temp_toast] 5 False True \<noteq> Inr 0"
proof -
  have "pg_database_checksum_internal mix sample_backend [class_temp_table] 5 True True
          = Inr (heap_tuple_term (pg_tuple_checksum mix page_A 1 0 False) 16390)"
    by (simp add: pg_database_checksum_internal_def process_relation_for_checksum_def
          ReadBuffer_def ItemPointerGetBlockNumber_def ItemPointerGetOffsetNumber_def
          OidIsValid_def InvalidOid_def Let_def sample_backend_simps)
  then show "pg_database_checksum_internal mix sample_backend [class_temp_table] 5 True True
               \<noteq> Inr 0"
    using heap_tuple_term_nonzero [of 16390 "pg_tuple_checksum mix page_A 1 0 False"] by simp
  have "pg_database_checksum_internal mix sample_backend [class_temp_toast] 5 False True
          = Inr (heap_tuple_term (pg_tuple_checksum mix page_A 1 0 False) 16393)"
    by (simp add: pg_database_checksum_internal_def process_relation_for_checksum_def
          ReadBuffer_def ItemPointerGetBlockNumber_def ItemPointerGetOffsetNumber_def
          OidIsValid_def InvalidOid_def Let_def sample_backend_simps)
  then show "pg_database_checksum_internal mix sample_backend [class_temp_toast] 5 False True
               \<noteq> Inr 0"
    using heap_tuple_term_nonzero [of 16393 "pg_tuple_checksum mix page_A 1 0 False"] by simp
qed

text \<open>
  The loops as folds over the entries they visit. \<open>PageGetMaxOffsetNumber\<close> stays
  under 65535, so the 16-bit counter of an inner index loop runs through
  \<open>offsets_from\<close> without wrapping.
\<close>

lemma PageGetMaxOffsetNumber_bound: "unat (PageGetMaxOffsetNumber page) < 65535"
proof -
  have "unat (pd_lower page - 24) < 2 ^ 16"
    using unsigned_less [of "pd_lower page - 24"] by simp
  then have "unat (pd_lower page - 24) div 4 < 65535" by simp
  then show ?thesis
    by (simp add: PageGetMaxOffsetNumber_def SizeOfPageHeaderData_def
          sizeof_ItemIdData_def unat_div)
qed

lemma offset_range_step:
  fixes offnum :: OffsetNumber
  assumes "offnum \<le> PageGetMaxOffsetNumber page"
  shows "offsets_from page offnum = offnum # offsets_from page (offnum + 1)"
proof -
  have le: "unat offnum \<le> unat (PageGetMaxOffsetNumber page)"
    using assms by (simp add: word_le_nat_alt)
  then have "unat offnum < 65535" using PageGetMaxOffsetNumber_bound [of page] by simp
  then have s: "unat (offnum + 1) = Suc (unat offnum)" by (simp add: unat_word_ariths)
  have "[unat offnum ..< Suc (unat (PageGetMaxOffsetNumber page))]
          = unat offnum # [Suc (unat offnum) ..< Suc (unat (PageGetMaxOffsetNumber page))]"
    using le by (simp add: upt_conv_Cons)
  then show ?thesis unfolding offsets_from_def s by simp
qed

lemma offset_range_end:
  fixes offnum :: OffsetNumber
  assumes "\<not> offnum \<le> PageGetMaxOffsetNumber page"
  shows "offsets_from page offnum = []"
  using assms by (simp add: offsets_from_def word_le_nat_alt)

lemma pg_checksum_index_items_entries_aux:
  fixes acc :: "uint32 \<times> uint64"
  shows "\<forall>c n. fst (pg_checksum_index_items mix tupdesc page offnum (c, n))
           = fold (\<lambda>fp a. a XOR fp)
               (map (\<lambda>offnum. pg_index_tuple_checksum mix
                                (PageGetItem page (PageGetItemId page offnum)) tupdesc offnum)
                  (filter (\<lambda>offnum. ItemIdIsUsed (PageGetItemId page offnum) \<and>
                                     \<not> ItemIdIsDead (PageGetItemId page offnum))
                     (offsets_from page offnum)))
               c"
proof (induction mix tupdesc page offnum acc rule: pg_checksum_index_items.induct)
  case (1 mix tupdesc page offnum index_checksum tuples_seen)
  show ?case
  proof (intro allI)
    fix c :: uint32 and n :: uint64
    show "fst (pg_checksum_index_items mix tupdesc page offnum (c, n))
           = fold (\<lambda>fp a. a XOR fp)
               (map (\<lambda>offnum. pg_index_tuple_checksum mix
                                (PageGetItem page (PageGetItemId page offnum)) tupdesc offnum)
                  (filter (\<lambda>offnum. ItemIdIsUsed (PageGetItemId page offnum) \<and>
                                     \<not> ItemIdIsDead (PageGetItemId page offnum))
                     (offsets_from page offnum)))
               c"
    proof (cases "offnum \<le> PageGetMaxOffsetNumber page")
      case False
      then show ?thesis
        by (simp add: pg_checksum_index_items.simps [of _ _ _ offnum] offset_range_end)
    next
      case inr: True
      show ?thesis
      proof (cases "\<not> ItemIdIsUsed (PageGetItemId page offnum) \<or> ItemIdIsDead (PageGetItemId page offnum)")
        case True
        have "fst (pg_checksum_index_items mix tupdesc page (offnum + 1) (c, n))
           = fold (\<lambda>fp a. a XOR fp)
               (map (\<lambda>offnum. pg_index_tuple_checksum mix
                                (PageGetItem page (PageGetItemId page offnum)) tupdesc offnum)
                  (filter (\<lambda>offnum. ItemIdIsUsed (PageGetItemId page offnum) \<and>
                                     \<not> ItemIdIsDead (PageGetItemId page offnum))
                     (offsets_from page (offnum + 1))))
               c"
          using 1(1) [OF inr refl True] by blast
        with inr True show ?thesis
          unfolding offset_range_step [OF inr]
          by (auto simp add: pg_checksum_index_items.simps [of _ _ _ offnum])
      next
        case False
        let ?t = "pg_index_tuple_checksum mix (PageGetItem page (PageGetItemId page offnum))
                    tupdesc offnum"
        have "fst (pg_checksum_index_items mix tupdesc page (offnum + 1) (c XOR ?t, n + 1))
           = fold (\<lambda>fp a. a XOR fp)
               (map (\<lambda>offnum. pg_index_tuple_checksum mix
                                (PageGetItem page (PageGetItemId page offnum)) tupdesc offnum)
                  (filter (\<lambda>offnum. ItemIdIsUsed (PageGetItemId page offnum) \<and>
                                     \<not> ItemIdIsDead (PageGetItemId page offnum))
                     (offsets_from page (offnum + 1))))
               (c XOR ?t)"
          using 1(2) [OF inr refl False refl refl] by blast
        with inr False show ?thesis
          unfolding offset_range_step [OF inr]
          by (auto simp add: pg_checksum_index_items.simps [of _ _ _ offnum] Let_def)
      qed
    qed
  qed
qed

lemma pg_checksum_index_blocks_entries:
  "fst (pg_checksum_index_blocks mix tupdesc pages acc)
     = fold (\<lambda>fp a. a XOR fp) (index_fingerprints mix tupdesc pages) (fst acc)"
proof (induction pages arbitrary: acc)
  case Nil
  show ?case by (simp add: index_fingerprints_def)
next
  case (Cons page rest)
  obtain c n where acc: "acc = (c, n)" by (cases acc)
  show ?case
  proof (cases "PageIsNew page")
    case True
    then show ?thesis using Cons.IH [of acc]
      by (simp add: index_fingerprints_def index_page_fingerprints_def)
  next
    case False
    have "fst (pg_checksum_index_items mix tupdesc page FirstOffsetNumber (c, n))
            = fold (\<lambda>fp a. a XOR fp) (index_page_fingerprints mix tupdesc page) c"
      using pg_checksum_index_items_entries_aux [of mix tupdesc page FirstOffsetNumber] False
      by (simp add: index_page_fingerprints_def live_offsets_def FirstOffsetNumber_def)
    then show ?thesis
      using False Cons.IH [of "pg_checksum_index_items mix tupdesc page FirstOffsetNumber acc"]
      by (simp add: acc index_fingerprints_def)
  qed
qed

lemma process_index_items_entries_aux:
  fixes st :: DatabaseChecksumState
  shows "\<forall>s. checksum (process_index_items mix rel page offnum s)
           = fold (\<lambda>x a. a XOR x)
               (map (\<lambda>offnum. index_tuple_term
                                (pg_index_tuple_checksum mix
                                   (PageGetItem page (PageGetItemId page offnum))
                                   (RelationGetDescr rel) offnum) (rd_id rel))
                  (filter (\<lambda>offnum. ItemIdIsUsed (PageGetItemId page offnum) \<and>
                                     \<not> ItemIdIsDead (PageGetItemId page offnum))
                     (offsets_from page offnum)))
               (checksum s)"
proof (induction mix rel page offnum st rule: process_index_items.induct)
  case (1 mix rel page offnum st)
  show ?case
  proof (intro allI)
    fix s :: DatabaseChecksumState
    show "checksum (process_index_items mix rel page offnum s)
           = fold (\<lambda>x a. a XOR x)
               (map (\<lambda>offnum. index_tuple_term
                                (pg_index_tuple_checksum mix
                                   (PageGetItem page (PageGetItemId page offnum))
                                   (RelationGetDescr rel) offnum) (rd_id rel))
                  (filter (\<lambda>offnum. ItemIdIsUsed (PageGetItemId page offnum) \<and>
                                     \<not> ItemIdIsDead (PageGetItemId page offnum))
                     (offsets_from page offnum)))
               (checksum s)"
    proof (cases "offnum \<le> PageGetMaxOffsetNumber page")
      case False
      then show ?thesis
        by (simp add: process_index_items.simps [of _ _ _ offnum] offset_range_end)
    next
      case inr: True
      show ?thesis
      proof (cases "\<not> ItemIdIsUsed (PageGetItemId page offnum) \<or> ItemIdIsDead (PageGetItemId page offnum)")
        case True
        have "checksum (process_index_items mix rel page (offnum + 1) s)
           = fold (\<lambda>x a. a XOR x)
               (map (\<lambda>offnum. index_tuple_term
                                (pg_index_tuple_checksum mix
                                   (PageGetItem page (PageGetItemId page offnum))
                                   (RelationGetDescr rel) offnum) (rd_id rel))
                  (filter (\<lambda>offnum. ItemIdIsUsed (PageGetItemId page offnum) \<and>
                                     \<not> ItemIdIsDead (PageGetItemId page offnum))
                     (offsets_from page (offnum + 1))))
               (checksum s)"
          using 1(1) [OF inr refl True] by blast
        with inr True show ?thesis
          unfolding offset_range_step [OF inr]
          by (auto simp add: process_index_items.simps [of _ _ _ offnum])
      next
        case False
        let ?t = "index_tuple_term (pg_index_tuple_checksum mix
                     (PageGetItem page (PageGetItemId page offnum)) (RelationGetDescr rel) offnum) (rd_id rel)"
        let ?s' = "s\<lparr>checksum := checksum s XOR ?t, n_tuples := n_tuples s + 1\<rparr>"
        have "checksum (process_index_items mix rel page (offnum + 1) ?s')
           = fold (\<lambda>x a. a XOR x)
               (map (\<lambda>offnum. index_tuple_term
                                (pg_index_tuple_checksum mix
                                   (PageGetItem page (PageGetItemId page offnum))
                                   (RelationGetDescr rel) offnum) (rd_id rel))
                  (filter (\<lambda>offnum. ItemIdIsUsed (PageGetItemId page offnum) \<and>
                                     \<not> ItemIdIsDead (PageGetItemId page offnum))
                     (offsets_from page (offnum + 1))))
               (checksum ?s')"
          using 1(2) [OF inr refl False refl refl] by blast
        with inr False show ?thesis
          unfolding offset_range_step [OF inr]
          by (auto simp add: process_index_items.simps [of _ _ _ offnum] Let_def)
      qed
    qed
  qed
qed

lemma process_index_blocks_entries:
  "checksum (process_index_blocks mix rel pages s)
     = fold (\<lambda>x a. a XOR x)
         (map (\<lambda>idx_checksum. index_tuple_term idx_checksum (rd_id rel))
            (index_fingerprints mix (RelationGetDescr rel) pages))
         (checksum s)"
proof (induction pages arbitrary: s)
  case Nil
  show ?case by (simp add: index_fingerprints_def)
next
  case (Cons page rest)
  show ?case
  proof (cases "PageIsNew page")
    case True
    then show ?thesis using Cons.IH [of s]
      by (simp add: index_fingerprints_def index_page_fingerprints_def)
  next
    case False
    let ?s1 = "(process_index_items mix rel page FirstOffsetNumber s)
                 \<lparr>n_pages := n_pages (process_index_items mix rel page FirstOffsetNumber s) + 1\<rparr>"
    have "checksum ?s1
            = fold (\<lambda>x a. a XOR x)
                (map (\<lambda>idx_checksum. index_tuple_term idx_checksum (rd_id rel))
                   (index_page_fingerprints mix (RelationGetDescr rel) page))
                (checksum s)"
      using process_index_items_entries_aux [of mix rel page FirstOffsetNumber] False
      by (simp add: index_page_fingerprints_def live_offsets_def FirstOffsetNumber_def comp_def)
    then show ?thesis
      using False Cons.IH [of ?s1]
      by (simp add: index_fingerprints_def Let_def)
  qed
qed

lemma process_relation_for_checksum_entries:
  "checksum (process_relation_for_checksum mix env relid s)
     = fold (\<lambda>x a. a XOR x) (relation_terms mix env relid) (checksum s)"
  by (simp add: process_relation_for_checksum_def relation_terms_def Let_def
        process_heap_tuples_checksum process_index_for_checksum_def
        process_index_blocks_entries heap_fingerprints_def fold_map comp_def)

lemma pg_class_scan_entries:
  "checksum (pg_class_scan mix env s t classes st)
     = fold (\<lambda>x a. a XOR x) (database_terms mix env s t classes) (checksum st)"
proof (induction classes arbitrary: st)
  case Nil
  show ?case by (simp add: database_terms_def)
next
  case (Cons c cs)
  show ?case
  proof (cases "class_is_scanned s t c")
    case True
    then have "pg_class_scan mix env s t (c # cs) st
                 = pg_class_scan mix env s t cs (process_relation_for_checksum mix env (oid c) st)"
      unfolding class_is_scanned_def by (auto simp: Let_def)
    then show ?thesis
      using True Cons.IH [of "process_relation_for_checksum mix env (oid c) st"]
      by (simp add: database_terms_def process_relation_for_checksum_entries)
  next
    case False
    then have "pg_class_scan mix env s t (c # cs) st = pg_class_scan mix env s t cs st"
      unfolding class_is_scanned_def by (auto simp: Let_def)
    then show ?thesis using False Cons.IH [of st] by (simp add: database_terms_def)
  qed
qed

lemma xor_list_perm:
  fixes xs :: "'w::len word list"
  assumes "mset xs = mset ys"
  shows "fold (\<lambda>x a. a XOR x) xs acc = fold (\<lambda>x a. a XOR x) ys acc"
  using xor_fold_perm [OF assms, of "\<lambda>x. x" acc] .

text \<open>The entries of the sample table, the sample index and a sample catalog.\<close>

lemma page_A_fingerprint_block_1:
  "pg_tuple_checksum readme_mixer page_A 1 1 False = 3788669384"
  by (simp add: pg_tuple_checksum_def sample_heap_simps readme_mixer_simps mem_span_def
        tuple_location_hash_def HeapTupleHeaderGetRawXmin_def HeapTupleHeaderGetRawXmax_def
        CHECKSUM_NULL_def Let_def)

lemma sample_heap_fingerprints:
  "heap_fingerprints readme_mixer (relation_open sample_backend 16384) False
     = [1735033345, 3788669384]"
  by (simp add: heap_fingerprints_def ReadBuffer_def ItemPointerGetBlockNumber_def
        ItemPointerGetOffsetNumber_def sample_backend_simps page_A_fingerprint
        page_A_fingerprint_block_1)

lemma sample_live_offsets:
  "live_offsets sample_index_page = [1, 3]"
  "live_offsets sample_index_page_2 = [1]"
  by (simp_all add: live_offsets_def offsets_from_def PageGetMaxOffsetNumber_def
        SizeOfPageHeaderData_def sizeof_ItemIdData_def FirstOffsetNumber_def
        PageGetItemId_def ItemIdIsUsed_def ItemIdIsDead_def LP_UNUSED_def LP_NORMAL_def
        LP_DEAD_def sample_index_page_def sample_index_page_2_def upt_rec)

lemma sample_index_page_fingerprints:
  "index_page_fingerprints readme_mixer sample_desc sample_index_page
     = [1447009846, 1052956159]"
  "index_page_fingerprints readme_mixer sample_desc (sample_index_page\<lparr>pd_upper := 0\<rparr>) = []"
  "index_page_fingerprints readme_mixer sample_desc sample_index_page_2 = [1530300663]"
    apply (simp add: index_page_fingerprints_def sample_live_offsets PageIsNew_def)
    apply (simp add: pg_index_tuple_checksum_def IndexTupleSize_def
        PageGetItem_def PageGetItemId_def BTREE_AM_OID_def mem_span_def CHECKSUM_NULL_def
        readme_mixer_simps Let_def sample_backend_simps)
   apply (simp add: index_page_fingerprints_def PageIsNew_def)
  apply (simp add: index_page_fingerprints_def sample_live_offsets PageIsNew_def)
  apply (simp add: pg_index_tuple_checksum_def IndexTupleSize_def
        PageGetItem_def PageGetItemId_def BTREE_AM_OID_def mem_span_def CHECKSUM_NULL_def
        readme_mixer_simps Let_def sample_backend_simps)
  done

lemma sample_index_fingerprints:
  "index_fingerprints readme_mixer (RelationGetDescr (relation_open sample_backend 16399))
     (rd_index_blocks (relation_open sample_backend 16399))
     = [1447009846, 1052956159, 1530300663]"
proof -
  have "RelationGetDescr (relation_open sample_backend 16399) = sample_desc"
    by (simp add: RelationGetDescr_def sample_backend_def sample_relation_def)
  moreover have "rd_index_blocks (relation_open sample_backend 16399)
      = [sample_index_page, sample_index_page\<lparr>pd_upper := 0\<rparr>, sample_index_page_2]"
    by (simp add: sample_backend_def sample_relation_def)
  ultimately show ?thesis
    by (simp add: index_fingerprints_def sample_index_page_fingerprints)
qed

lemma sample_database_terms:
  "database_terms readme_mixer sample_backend False False [class_table, class_index]
     = [7451911474244501504, 16272211099636482048, 6214859965560012815,
        4522412267026792463, 6572591300632133647]"
proof -
  have r: "relation_terms readme_mixer sample_backend 16384
             = [7451911474244501504, 16272211099636482048]"
    using sample_heap_fingerprints
    by (simp add: relation_terms_def heap_tuple_term_def Let_def sample_backend_def
          sample_relation_def RELKIND_RELATION_def RELKIND_INDEX_def)
  have i: "relation_terms readme_mixer sample_backend 16399
             = [6214859965560012815, 4522412267026792463, 6572591300632133647]"
    using sample_index_fingerprints
    by (simp add: relation_terms_def index_tuple_term_def Let_def sample_backend_def
          sample_relation_def RELKIND_RELATION_def RELKIND_INDEX_def)
  have f: "class_is_scanned False False class_table" "class_is_scanned False False class_index"
    unfolding class_is_scanned_def by (simp_all add: sample_backend_simps)
  have o: "oid class_table = 16384" "oid class_index = 16399"
    by (simp_all add: class_table_def class_index_def)
  show ?thesis by (simp add: database_terms_def f o r i)
qed

section \<open>The tuple checksum against its specification\<close>

text \<open>
  C2. For a used slot inside the populated range whose data span is not empty,
  \<open>pg_tuple_checksum\<close> is the composition the specification describes: the seed
  \<open>(container_block_id << 16) | offset_in_container\<close>, the selected span (the whole row
  if \<open>include_header\<close>, else the bytes past the header) mixed with that seed, XOR the
  seed, XOR \<open>creation_txn_id XOR supersession_txn_id\<close> when the header is excluded, and
  the sentinel remap at the end.
\<close>

theorem pg_tuple_checksum_composition:
  assumes "lp = PageGetItemId page offnum" and "tuple = PageGetItem page lp"
    and "FirstOffsetNumber \<le> offnum" and "offnum \<le> PageGetMaxOffsetNumber page"
    and "ItemIdIsUsed lp"
    and "include_header \<or> unat (t_hoff tuple) < unat (ItemIdGetLength lp)"
    and "unat (ItemIdGetLength lp) \<le> length (t_mem tuple)"
  shows "pg_tuple_checksum mix page offnum blkno include_header =
           checksum_tuple_spec mix (take (unat (ItemIdGetLength lp)) (t_mem tuple))
             (unat (t_hoff tuple)) offnum blkno include_header (t_xmin tuple, t_xmax tuple)"
proof (cases include_header)
  case True
  have inrange: "\<not> (offnum < FirstOffsetNumber \<or> offnum > PageGetMaxOffsetNumber page)"
    using assms(3,4) by (simp add: not_less)
  from True inrange assms(1,2,5) show ?thesis
    by (simp add: pg_tuple_checksum_def checksum_tuple_spec_def null_mark_remap_spec_code
          Let_def mem_span_def sel_tuple_loc)
next
  case False
  let ?len = "ItemIdGetLength lp" and ?h = "ucast (t_hoff tuple) :: uint32"
  from False assms have lt: "unat (t_hoff tuple) < unat ?len" by simp
  have uh: "unat ?h = unat (t_hoff tuple)"
  proof -
    have "unat (t_hoff tuple) < 2 ^ 32"
      using unsigned_less [of "t_hoff tuple", where 'a = nat] by simp
    then show ?thesis by (simp add: unsigned_ucast_eq take_bit_nat_eq_self)
  qed
  have sub: "unat (?len - ?h) = unat ?len - unat (t_hoff tuple)"
    using lt uh by (simp add: unat_sub word_le_nat_alt)
  have ne: "?len - ?h \<noteq> 0"
    using sub lt by (metis unat_0 zero_less_diff less_irrefl)
  have span: "mem_span (t_mem tuple) (unat (t_hoff tuple)) (unat (?len - ?h))
                = drop (unat (t_hoff tuple)) (take (unat ?len) (t_mem tuple))"
    by (simp add: mem_span_def sub drop_take)
  have nonempty: "drop (unat (t_hoff tuple)) (take (unat ?len) (t_mem tuple)) \<noteq> []"
    using lt assms(7) by simp
  have inrange: "\<not> (offnum < FirstOffsetNumber \<or> offnum > PageGetMaxOffsetNumber page)"
    using assms(3,4) by (simp add: not_less)
  show ?thesis
    using False inrange assms(1,2,5) ne span nonempty
    by (simp add: pg_tuple_checksum_def checksum_tuple_spec_def null_mark_remap_spec_code
          Let_def sel_tuple_loc
          HeapTupleHeaderGetRawXmin_def HeapTupleHeaderGetRawXmax_def)
qed


text \<open>The composition at slot 1 of \<open>page_A\<close>, block 0, header excluded.\<close>

theorem pg_tuple_checksum_composition_witness:
  "pg_tuple_checksum readme_mixer page_A 1 0 False =
     checksum_tuple_spec readme_mixer
       (take (unat (ItemIdGetLength (PageGetItemId page_A 1)))
          (t_mem (PageGetItem page_A (PageGetItemId page_A 1))))
       (unat (t_hoff (PageGetItem page_A (PageGetItemId page_A 1)))) 1 0 False
       (t_xmin (PageGetItem page_A (PageGetItemId page_A 1)),
        t_xmax (PageGetItem page_A (PageGetItemId page_A 1)))
   \<and> take (unat (ItemIdGetLength (PageGetItemId page_A 1)))
          (t_mem (PageGetItem page_A (PageGetItemId page_A 1)))
       = [4, 0, 0, 0, 6, 0, 0, 0, 0, 0, 0, 0, 0, 0, 0, 0, 0, 0, 0, 0, 0, 0, 24, 0, 0x2A, 0x07]"
proof
  show "pg_tuple_checksum readme_mixer page_A 1 0 False =
     checksum_tuple_spec readme_mixer
       (take (unat (ItemIdGetLength (PageGetItemId page_A 1)))
          (t_mem (PageGetItem page_A (PageGetItemId page_A 1))))
       (unat (t_hoff (PageGetItem page_A (PageGetItemId page_A 1)))) 1 0 False
       (t_xmin (PageGetItem page_A (PageGetItemId page_A 1)),
        t_xmax (PageGetItem page_A (PageGetItemId page_A 1)))"
    by (rule pg_tuple_checksum_composition [OF refl refl]) (simp_all add: sample_heap_simps)
  show "take (unat (ItemIdGetLength (PageGetItemId page_A 1)))
          (t_mem (PageGetItem page_A (PageGetItemId page_A 1)))
       = [4, 0, 0, 0, 6, 0, 0, 0, 0, 0, 0, 0, 0, 0, 0, 0, 0, 0, 0, 0, 0, 0, 24, 0, 0x2A, 0x07]"
    by (simp add: sample_heap_simps)
qed

section \<open>Invalid positions\<close>

text \<open>
  \<open>pg_tuple_checksum\<close> returns the zero fingerprint, and raises nothing, for an offset
  below \<open>FirstOffsetNumber\<close> or above \<open>PageGetMaxOffsetNumber\<close>, for an unused slot,
  and, with \<open>include_header\<close> false, for an item exactly as long as its header.
\<close>

lemma pg_tuple_checksum_zero_returns:
  "(offnum < FirstOffsetNumber \<or> offnum > PageGetMaxOffsetNumber page
      \<longrightarrow> pg_tuple_checksum mix page offnum blkno include_header = 0)
   \<and> (\<not> ItemIdIsUsed (PageGetItemId page offnum)
      \<longrightarrow> pg_tuple_checksum mix page offnum blkno include_header = 0)
   \<and> (ItemIdGetLength (PageGetItemId page offnum)
        = ucast (t_hoff (PageGetItem page (PageGetItemId page offnum)))
      \<longrightarrow> pg_tuple_checksum mix page offnum blkno False = 0)"
  by (simp add: pg_tuple_checksum_def Let_def)

text \<open>
  On \<open>page_A\<close>: offsets 0 and 4 lie outside the range 1..3, slot 3 is unused, and the
  tuple in slot 2 is all header.
\<close>

lemma pg_tuple_checksum_zero_returns_on_page_A:
  "pg_tuple_checksum readme_mixer page_A 0 0 True = 0
   \<and> pg_tuple_checksum readme_mixer page_A 4 0 True = 0
   \<and> pg_tuple_checksum readme_mixer page_A 3 0 True = 0
   \<and> pg_tuple_checksum readme_mixer page_A 2 0 False = 0
   \<and> PageGetMaxOffsetNumber page_A = 3"
proof -
  have "(0 :: OffsetNumber) < FirstOffsetNumber" by (simp add: FirstOffsetNumber_def)
  then have a: "pg_tuple_checksum readme_mixer page_A 0 0 True = 0"
    using pg_tuple_checksum_zero_returns [of 0 page_A readme_mixer 0 True] by simp
  have m: "PageGetMaxOffsetNumber page_A = 3" by (simp add: sample_heap_simps)
  then have "(4 :: OffsetNumber) > PageGetMaxOffsetNumber page_A" by simp
  then have b: "pg_tuple_checksum readme_mixer page_A 4 0 True = 0"
    using pg_tuple_checksum_zero_returns [of 4 page_A readme_mixer 0 True] by simp
  have "\<not> ItemIdIsUsed (PageGetItemId page_A 3)" by (simp add: sample_heap_simps)
  then have c: "pg_tuple_checksum readme_mixer page_A 3 0 True = 0"
    using pg_tuple_checksum_zero_returns [of 3 page_A readme_mixer 0 True] by simp
  have "ItemIdGetLength (PageGetItemId page_A 2)
          = ucast (t_hoff (PageGetItem page_A (PageGetItemId page_A 2)))"
    by (simp add: sample_heap_simps)
  then have d: "pg_tuple_checksum readme_mixer page_A 2 0 False = 0"
    using pg_tuple_checksum_zero_returns [of 2 page_A readme_mixer 0 True] by simp
  from a b c d m show ?thesis by simp
qed


text \<open>
  An item shorter than its header has no data bytes either, but \<open>len\<close> is a \<open>uint32\<close>:
  \<open>len -= tuple->t_hoff\<close> wraps, the test \<open>len <= 0\<close> fails, and the function goes on
  to mix \<open>2^32 - (t_hoff - lp_len)\<close> bytes from behind the header.
\<close>

lemma pg_tuple_checksum_length_wraps:
  assumes "FirstOffsetNumber \<le> offnum" and "offnum \<le> PageGetMaxOffsetNumber page"
    and "lp = PageGetItemId page offnum" and "tuple = PageGetItem page lp"
    and "ItemIdIsUsed lp"
    and "unat (ItemIdGetLength lp) < unat (t_hoff tuple)"
  shows "pg_tuple_checksum mix page offnum blkno False =
     (let seed = tuple_location_hash blkno offnum;
          raw = mix (mem_span (t_mem tuple) (unat (t_hoff tuple))
                       (2 ^ 32 - (unat (t_hoff tuple) - unat (ItemIdGetLength lp))))
                  seed
                XOR seed XOR (t_xmin tuple XOR t_xmax tuple)
      in if raw = CHECKSUM_NULL then (CHECKSUM_NULL XOR seed) AND 0xFFFFFFFE else raw)"
proof -
  let ?len = "ItemIdGetLength lp" and ?h = "ucast (t_hoff tuple) :: uint32"
  have uh: "unat ?h = unat (t_hoff tuple)"
  proof -
    have "unat (t_hoff tuple) < 2 ^ 32"
      using unsigned_less [of "t_hoff tuple", where 'a = nat] by simp
    then show ?thesis by (simp add: unsigned_ucast_eq take_bit_nat_eq_self)
  qed
  have ne: "?len \<noteq> ?h" using assms(6) uh by auto
  have "unat (?len - ?h) = 2 ^ 32 + unat ?len - unat ?h"
    using assms(6) uh by (simp add: unat_sub_if_size word_less_nat_alt word_size)
  then have w: "unat (?len - ?h) = 2 ^ 32 - (unat (t_hoff tuple) - unat ?len)"
    using assms(6) uh unsigned_less [of ?len, where 'a = nat] by simp
  show ?thesis
    using pg_tuple_checksum_data_only [OF assms(1,2), of mix blkno] assms(3,4,5) ne w
    by (simp add: Let_def)
qed

lemma page_header_span_mixed:
  "readme_mixer [0, 0, 0x28, 0x00, 0x40, 0x1F, 0x00, 0x20, 0x04, 0x20, 0xBC, 0x02, 0x0A, 0x00,
               0xE0, 0x9F, 0x34, 0x00, 0xC0, 0x9F, 0x30, 0x00,
               0x00, 0x00, 0x00, 0x00, 0x00, 0x80, 0x01, 0x00] 4 = 1117799817"
  by (simp add: readme_mixer_simps)

text \<open>
  C8. \<open>pg_tuple_checksum\<close> is to return the zero fingerprint, instead of failing, for
  an offset outside the populated range, for an unused slot and, with
  \<open>include_header\<close> false, for a tuple whose data-only span is empty. The code does
  not do so for a used item that is shorter than its header: at the dead line pointer
  of \<open>page_pruned\<close> (slot 4, in range, used, length 0, \<open>t_hoff\<close> read as 10) the call
  with \<open>include_header\<close> false does not return 0 but a fingerprint of the memory behind
  the item, here the rest of the page header and the line pointers.
\<close>

theorem pg_tuple_checksum_dead_slot_not_zero:
  "FirstOffsetNumber \<le> 4 \<and> 4 \<le> PageGetMaxOffsetNumber page_pruned
   \<and> ItemIdIsUsed (PageGetItemId page_pruned 4)
   \<and> ItemIdGetLength (PageGetItemId page_pruned 4) = 0
   \<and> t_hoff (PageGetItem page_pruned (PageGetItemId page_pruned 4)) = 10
   \<and> pg_tuple_checksum readme_mixer page_pruned 4 0 False = 1137410005"
  by (simp add: pg_tuple_checksum_def page_pruned_def page_header_as_tuple_def sample_heap_simps
        LP_DEAD_def mem_span_def page_header_span_mixed
        tuple_location_hash_def HeapTupleHeaderGetRawXmin_def HeapTupleHeaderGetRawXmax_def
        CHECKSUM_NULL_def Let_def)

section \<open>The sentinel of the column checksum\<close>

text \<open>
  C1. \<open>pg_column_checksum_internal\<close> returns \<open>CHECKSUM_NULL\<close> for every null input,
  and for a non-null input it never returns \<open>CHECKSUM_NULL\<close>: it either raises an error
  or returns a value whose remap, \<open>(CHECKSUM_NULL ^ attnum ^ typid) & 0xFFFFFFFE\<close>, has
  the low bit cleared.
\<close>

theorem pg_column_checksum_null_iff:
  "pg_column_checksum_internal mix env v True typid typmod attnum = Inr CHECKSUM_NULL
   \<and> pg_column_checksum_internal mix env v False typid typmod attnum \<noteq> Inr CHECKSUM_NULL"
proof -
  have "(CHECKSUM_NULL XOR attnum XOR typid) AND 0xFFFFFFFE \<noteq> CHECKSUM_NULL"
    unfolding CHECKSUM_NULL_def by (rule low_bit_cleared_not_all_ones)
  then show ?thesis
    by (auto simp: pg_column_checksum_internal_def Let_def split: option.splits sum.splits if_splits)
qed

text \<open>Column 1 of the sample row, an \<open>int4\<close> holding 42, as null and as non-null.\<close>

theorem pg_column_checksum_null_iff_witness:
  "pg_column_checksum_internal readme_mixer sample_backend 42 True 23 (- 1) 1 = Inr CHECKSUM_NULL
   \<and> pg_column_checksum_internal readme_mixer sample_backend 42 False 23 (- 1) 1
       \<noteq> Inr CHECKSUM_NULL"
  by (rule pg_column_checksum_null_iff)

section \<open>Sensitivity of the tuple checksum to location\<close>

text \<open>
  C3, as the code has it. Take two used slots in range that hold the same tuple (same
  bytes, same \<open>t_xmin\<close> and \<open>t_xmax\<close>, same length, data span not empty), header
  excluded. The fingerprint depends on the location only through the 32-bit seed
  \<open>(blkno << 16) | offnum\<close>: equal seeds give equal fingerprints. When neither value
  before the remap is \<open>CHECKSUM_NULL\<close>, the fingerprints differ exactly when
  \<open>mix(span, seed1) XOR seed1\<close> and \<open>mix(span, seed2) XOR seed2\<close> differ; so they differ
  in particular when the seeds differ and the mixer returns the same value for both.
\<close>

theorem tuple_checksum_location_dependence:
  assumes "FirstOffsetNumber \<le> off1" and "off1 \<le> PageGetMaxOffsetNumber page1"
    and "ItemIdIsUsed (PageGetItemId page1 off1)"
    and "FirstOffsetNumber \<le> off2" and "off2 \<le> PageGetMaxOffsetNumber page2"
    and "ItemIdIsUsed (PageGetItemId page2 off2)"
    and "PageGetItem page1 (PageGetItemId page1 off1) = tuple"
    and "PageGetItem page2 (PageGetItemId page2 off2) = tuple"
    and "ItemIdGetLength (PageGetItemId page1 off1) = len"
    and "ItemIdGetLength (PageGetItemId page2 off2) = len"
    and "len \<noteq> ucast (t_hoff tuple)"
    and "span = mem_span (t_mem tuple) (unat (t_hoff tuple)) (unat (len - ucast (t_hoff tuple)))"
    and "seed1 = tuple_location_hash blk1 off1"
    and "seed2 = tuple_location_hash blk2 off2"
  shows "(seed1 = seed2 \<longrightarrow>
            pg_tuple_checksum mix page1 off1 blk1 False = pg_tuple_checksum mix page2 off2 blk2 False)
       \<and> (mix span seed1 XOR seed1 XOR (t_xmin tuple XOR t_xmax tuple) \<noteq> CHECKSUM_NULL
          \<and> mix span seed2 XOR seed2 XOR (t_xmin tuple XOR t_xmax tuple) \<noteq> CHECKSUM_NULL \<longrightarrow>
            (pg_tuple_checksum mix page1 off1 blk1 False \<noteq> pg_tuple_checksum mix page2 off2 blk2 False)
              = (mix span seed1 XOR seed1 \<noteq> mix span seed2 XOR seed2))"
proof -
  have fp1: "pg_tuple_checksum mix page1 off1 blk1 False =
      (let raw = mix span seed1 XOR seed1 XOR (t_xmin tuple XOR t_xmax tuple)
       in if raw = CHECKSUM_NULL then (CHECKSUM_NULL XOR seed1) AND 0xFFFFFFFE else raw)"
    using assms(1,2,3,7,9,11,12,13)
    by (simp add: pg_tuple_checksum_data_only Let_def)
  have fp2: "pg_tuple_checksum mix page2 off2 blk2 False =
      (let raw = mix span seed2 XOR seed2 XOR (t_xmin tuple XOR t_xmax tuple)
       in if raw = CHECKSUM_NULL then (CHECKSUM_NULL XOR seed2) AND 0xFFFFFFFE else raw)"
    using assms(4,5,6,8,10,11,12,14)
    by (simp add: pg_tuple_checksum_data_only Let_def)
  have cancel: "(a XOR v = b XOR v) = (a = b)" for a b v :: uint32
    by (metis xor.assoc xor_self_eq xor.right_neutral)
  show ?thesis
    unfolding fp1 fp2 by (simp add: Let_def cancel xor.assoc [symmetric])
qed

text \<open>
  Blocks 1 and 65537 give the same seed for offset 1; blocks 0 and 1 give different
  seeds, and on the sample tuple different fingerprints.
\<close>

theorem tuple_checksum_location_dependence_witness:
  "pg_tuple_checksum readme_mixer page_A 1 1 False
     = pg_tuple_checksum readme_mixer page_A 1 65537 False
   \<and> pg_tuple_checksum readme_mixer page_A 1 0 False
     \<noteq> pg_tuple_checksum readme_mixer page_A 1 1 False"
proof -
  note inst = tuple_checksum_location_dependence
    [where mix = readme_mixer and ?page1.0 = page_A and ?page2.0 = page_A and ?off1.0 = 1 and ?off2.0 = 1,
     OF _ _ _ _ _ _ refl refl refl refl _ refl refl refl]
  have same_seed: "pg_tuple_checksum readme_mixer page_A 1 1 False
                     = pg_tuple_checksum readme_mixer page_A 1 65537 False"
    using inst [where ?blk1.0 = 1 and ?blk2.0 = 65537]
    by (simp add: sample_heap_simps tuple_location_hash_def)
  have other_seed: "pg_tuple_checksum readme_mixer page_A 1 0 False
                      \<noteq> pg_tuple_checksum readme_mixer page_A 1 1 False"
    using inst [where ?blk1.0 = 0 and ?blk2.0 = 1]
    by (simp add: sample_heap_simps tuple_location_hash_def mem_span_def readme_mixer_simps
          CHECKSUM_NULL_def)
  from same_seed other_seed show ?thesis by simp
qed

text \<open>
  The claim as stated fails: the same tuple at (0, 1) and at (65536, 1). The shift
  drops the upper 16 bits of the block number, so both locations have seed 1.
\<close>

theorem tuple_checksum_location_counterexample:
  "(0 :: BlockNumber, 1 :: OffsetNumber) \<noteq> (65536, 1)
   \<and> pg_tuple_checksum readme_mixer page_A 1 0 False = 1735033345
   \<and> pg_tuple_checksum readme_mixer page_A 1 65536 False = 1735033345"
  by (simp add: pg_tuple_checksum_def sample_heap_simps readme_mixer_simps mem_span_def
        tuple_location_hash_def HeapTupleHeaderGetRawXmin_def HeapTupleHeaderGetRawXmax_def
        CHECKSUM_NULL_def Let_def)

section \<open>Sensitivity of the tuple checksum to the visibility stamp\<close>

text \<open>
  C4, as the code has it. Take the same slot holding two tuples of the same length and
  header length with the same data bytes, header excluded. The stamp enters the
  fingerprint only as \<open>t_xmin XOR t_xmax\<close>: stamps with the same XOR give the same
  fingerprint, and when neither value before the remap is \<open>CHECKSUM_NULL\<close> the
  fingerprints differ exactly when the two XORs differ.
\<close>

theorem tuple_checksum_visibility_dependence:
  assumes "FirstOffsetNumber \<le> offnum" and "offnum \<le> PageGetMaxOffsetNumber page1"
    and "ItemIdIsUsed (PageGetItemId page1 offnum)"
    and "offnum \<le> PageGetMaxOffsetNumber page2"
    and "ItemIdIsUsed (PageGetItemId page2 offnum)"
    and "PageGetItem page1 (PageGetItemId page1 offnum) = tuple1"
    and "PageGetItem page2 (PageGetItemId page2 offnum) = tuple2"
    and "ItemIdGetLength (PageGetItemId page1 offnum) = len"
    and "ItemIdGetLength (PageGetItemId page2 offnum) = len"
    and "t_hoff tuple1 = hoff" and "t_hoff tuple2 = hoff"
    and "len \<noteq> ucast hoff"
    and "mem_span (t_mem tuple1) (unat hoff) (unat (len - ucast hoff)) = span"
    and "mem_span (t_mem tuple2) (unat hoff) (unat (len - ucast hoff)) = span"
    and "seed = tuple_location_hash blkno offnum"
    and "stamp1 = t_xmin tuple1 XOR t_xmax tuple1"
    and "stamp2 = t_xmin tuple2 XOR t_xmax tuple2"
  shows "(stamp1 = stamp2 \<longrightarrow>
            pg_tuple_checksum mix page1 offnum blkno False
              = pg_tuple_checksum mix page2 offnum blkno False)
       \<and> (mix span seed XOR seed XOR stamp1 \<noteq> CHECKSUM_NULL
          \<and> mix span seed XOR seed XOR stamp2 \<noteq> CHECKSUM_NULL \<longrightarrow>
            (pg_tuple_checksum mix page1 offnum blkno False
               \<noteq> pg_tuple_checksum mix page2 offnum blkno False)
              = (stamp1 \<noteq> stamp2))"
proof -
  have fp1: "pg_tuple_checksum mix page1 offnum blkno False =
      (let raw = mix span seed XOR seed XOR stamp1
       in if raw = CHECKSUM_NULL then (CHECKSUM_NULL XOR seed) AND 0xFFFFFFFE else raw)"
    using assms(1,2,3,6,8,10,12,13,15,16)
    by (simp add: pg_tuple_checksum_data_only Let_def)
  have fp2: "pg_tuple_checksum mix page2 offnum blkno False =
      (let raw = mix span seed XOR seed XOR stamp2
       in if raw = CHECKSUM_NULL then (CHECKSUM_NULL XOR seed) AND 0xFFFFFFFE else raw)"
    using assms(1,4,5,7,9,11,12,14,15,17)
    by (simp add: pg_tuple_checksum_data_only Let_def)
  have cancel: "(a XOR v = a XOR w) = (v = w)" for a v w :: uint32
    by (metis xor.left_commute xor_self_eq xor.right_neutral)
  show ?thesis
    unfolding fp1 fp2 by (simp add: Let_def cancel xor.assoc)
qed


text \<open>
  Stamps (700, 0) and (701, 1) have the same XOR; stamps (4, 6) and (700, 0) do not.
\<close>

theorem tuple_checksum_visibility_dependence_witness:
  "pg_tuple_checksum readme_mixer page_C 1 0 False = pg_tuple_checksum readme_mixer page_D 1 0 False
   \<and> pg_tuple_checksum readme_mixer page_A 1 0 False \<noteq> pg_tuple_checksum readme_mixer page_C 1 0 False"
proof -
  note inst = tuple_checksum_visibility_dependence
    [where mix = readme_mixer and offnum = 1 and blkno = 0 and hoff = 24 and span = "[0x2A, 0x07]",
     OF _ _ _ _ _ refl refl refl _ _ _ _ _ _ refl refl refl]
  have same_xor: "pg_tuple_checksum readme_mixer page_C 1 0 False
                    = pg_tuple_checksum readme_mixer page_D 1 0 False"
    using inst [where ?page1.0 = page_C and ?page2.0 = page_D]
    by (simp add: sample_heap_simps mem_span_def)
  have other_xor: "pg_tuple_checksum readme_mixer page_A 1 0 False
                     \<noteq> pg_tuple_checksum readme_mixer page_C 1 0 False"
    using inst [where ?page1.0 = page_A and ?page2.0 = page_C]
    by (simp add: sample_heap_simps tuple_location_hash_def mem_span_def readme_mixer_simps
          CHECKSUM_NULL_def)
  from same_xor other_xor show ?thesis by simp
qed

text \<open>
  The claim as stated fails: at slot (0, 1), the stamps (4, 6) and (5, 7) differ and
  have the same XOR, 2.
\<close>

theorem tuple_checksum_visibility_counterexample:
  "(t_xmin (PageGetItem page_A (PageGetItemId page_A 1)),
    t_xmax (PageGetItem page_A (PageGetItemId page_A 1))) = (4, 6)
   \<and> (t_xmin (PageGetItem page_B (PageGetItemId page_B 1)),
      t_xmax (PageGetItem page_B (PageGetItemId page_B 1))) = (5, 7)
   \<and> pg_tuple_checksum readme_mixer page_A 1 0 False = 1735033345
   \<and> pg_tuple_checksum readme_mixer page_B 1 0 False = 1735033345"
  by (simp add: pg_tuple_checksum_def sample_heap_simps readme_mixer_simps mem_span_def
        tuple_location_hash_def HeapTupleHeaderGetRawXmin_def HeapTupleHeaderGetRawXmax_def
        CHECKSUM_NULL_def Let_def)


section \<open>The aggregates\<close>

text \<open>
  C5. Every aggregate is the XOR-fold, from 0, of the contributions of its entries:
  \<open>pg_checksum_table\<close> of the checksums of the tuples the heap scan delivers,
  \<open>pg_checksum_index\<close> of the checksums of the live index tuples of all pages that are
  not new, and \<open>pg_database_checksum_internal\<close>, for the current database, of the
  64-bit terms of all tuples and index tuples of the relations it does not pass over.
  The fold over any other arrangement of the same entries gives the same aggregate, and
  so do a permuted heap scan, permuted index blocks and permuted rows of \<open>pg_class\<close>.
  An aggregate over no entries is 0.
\<close>

theorem aggregate_xor_fold_order_independent:
  assumes "mset fps = mset (heap_fingerprints mix (relation_open env reloid) h)"
    and "mset ifps = mset (index_fingerprints mix (RelationGetDescr (relation_open env indexoid))
                             (rd_index_blocks (relation_open env indexoid)))"
    and "mset dterms = mset (database_terms mix env s t pg_class)"
    and "rd_heap_block (relation_open env' reloid) = rd_heap_block (relation_open env reloid)"
    and "mset (rd_heap_scan (relation_open env' reloid))
           = mset (rd_heap_scan (relation_open env reloid))"
    and "rd_att (relation_open env' indexoid) = rd_att (relation_open env indexoid)"
    and "mset (rd_index_blocks (relation_open env' indexoid))
           = mset (rd_index_blocks (relation_open env indexoid))"
    and "mset pg_class' = mset pg_class"
  shows "pg_checksum_table mix env reloid h
           = fold (\<lambda>fp a. a XOR fp) (heap_fingerprints mix (relation_open env reloid) h) 0
       \<and> pg_checksum_index mix env indexoid
           = fold (\<lambda>fp a. a XOR fp)
               (index_fingerprints mix (RelationGetDescr (relation_open env indexoid))
                  (rd_index_blocks (relation_open env indexoid))) 0
       \<and> pg_database_checksum_internal mix env pg_class dboid s t
           = (if OidIsValid dboid \<and> dboid \<noteq> MyDatabaseId env
              then Inl ERR_cross_database_checksum_not_supported
              else Inr (fold (\<lambda>x a. a XOR x) (database_terms mix env s t pg_class) 0))
       \<and> pg_checksum_table mix env reloid h = fold (\<lambda>fp a. a XOR fp) fps 0
       \<and> pg_checksum_index mix env indexoid = fold (\<lambda>fp a. a XOR fp) ifps 0
       \<and> pg_database_checksum_internal mix env pg_class dboid s t
           = (if OidIsValid dboid \<and> dboid \<noteq> MyDatabaseId env
              then Inl ERR_cross_database_checksum_not_supported
              else Inr (fold (\<lambda>x a. a XOR x) dterms 0))
       \<and> pg_checksum_table mix env' reloid h = pg_checksum_table mix env reloid h
       \<and> pg_checksum_index mix env' indexoid = pg_checksum_index mix env indexoid
       \<and> checksum (process_heap_tuples mix rel reloid (rd_heap_scan (relation_open env' reloid)) st)
           = checksum (process_heap_tuples mix rel reloid (rd_heap_scan (relation_open env reloid)) st)
       \<and> pg_database_checksum_internal mix env pg_class' dboid s t
           = pg_database_checksum_internal mix env pg_class dboid s t
       \<and> pg_checksum_table_loop mix rel h [] 0 = 0
       \<and> fst (pg_checksum_index_blocks mix (RelationGetDescr rel) [] (0, 0)) = 0
       \<and> pg_database_checksum_internal mix env [] (MyDatabaseId env) s t = Inr 0"
proof -
  have c1: "pg_checksum_table mix env reloid h
           = fold (\<lambda>fp a. a XOR fp) (heap_fingerprints mix (relation_open env reloid) h) 0"
    by (simp add: pg_checksum_table_def pg_checksum_table_loop_fold heap_fingerprints_def
          fold_map comp_def Let_def)
  have c2: "pg_checksum_index mix env indexoid
           = fold (\<lambda>fp a. a XOR fp)
               (index_fingerprints mix (RelationGetDescr (relation_open env indexoid))
                  (rd_index_blocks (relation_open env indexoid))) 0"
    by (simp add: pg_checksum_index_def Let_def pg_checksum_index_blocks_entries)
  have c3: "pg_database_checksum_internal mix env pg_class dboid s t
           = (if OidIsValid dboid \<and> dboid \<noteq> MyDatabaseId env
              then Inl ERR_cross_database_checksum_not_supported
              else Inr (fold (\<lambda>x a. a XOR x) (database_terms mix env s t pg_class) 0))"
    by (simp add: pg_database_checksum_internal_def Let_def pg_class_scan_entries)
  have c4: "pg_checksum_table mix env reloid h = fold (\<lambda>fp a. a XOR fp) fps 0"
    unfolding c1 by (rule xor_list_perm [OF assms(1) [symmetric]])
  have c5: "pg_checksum_index mix env indexoid = fold (\<lambda>fp a. a XOR fp) ifps 0"
    unfolding c2 by (rule xor_list_perm [OF assms(2) [symmetric]])
  have "fold (\<lambda>x a. a XOR x) (database_terms mix env s t pg_class) 0
          = fold (\<lambda>x a. a XOR x) dterms 0"
    by (rule xor_list_perm [OF assms(3) [symmetric]])
  then have c6: "pg_database_checksum_internal mix env pg_class dboid s t
           = (if OidIsValid dboid \<and> dboid \<noteq> MyDatabaseId env
              then Inl ERR_cross_database_checksum_not_supported
              else Inr (fold (\<lambda>x a. a XOR x) dterms 0))"
    unfolding c3 by simp
  have rb: "ReadBuffer (relation_open env' reloid) = ReadBuffer (relation_open env reloid)"
    using assms(4) by (simp add: ReadBuffer_def fun_eq_iff)
  have c7: "pg_checksum_table mix env' reloid h = pg_checksum_table mix env reloid h"
    unfolding pg_checksum_table_def Let_def pg_checksum_table_loop_fold rb
    by (rule xor_fold_perm [OF assms(5)])
  have d: "RelationGetDescr (relation_open env' indexoid)
             = RelationGetDescr (relation_open env indexoid)"
    using assms(6) by (simp add: RelationGetDescr_def)
  have c8: "pg_checksum_index mix env' indexoid = pg_checksum_index mix env indexoid"
    unfolding pg_checksum_index_def Let_def d pg_checksum_index_blocks_fst
    by (rule xor_fold_perm [OF assms(7)])
  have c9: "checksum (process_heap_tuples mix rel reloid (rd_heap_scan (relation_open env' reloid)) st)
           = checksum (process_heap_tuples mix rel reloid (rd_heap_scan (relation_open env reloid)) st)"
    unfolding process_heap_tuples_checksum by (rule xor_fold_perm [OF assms(5)])
  let ?z = "\<lparr>checksum = 0, n_tuples = 0, n_pages = 0, current_relid = 0,
             current_relkind = CHR 0x00, include_toast = t, include_system = s\<rparr>"
  have zc: "checksum ?z = 0" by simp
  have "checksum (pg_class_scan mix env s t pg_class' ?z)
          = checksum (pg_class_scan mix env s t pg_class ?z)"
    unfolding pg_class_scan_checksum [OF zc] by (rule xor_fold_perm [OF assms(8)])
  then have c10: "pg_database_checksum_internal mix env pg_class' dboid s t
           = pg_database_checksum_internal mix env pg_class dboid s t"
    by (simp add: pg_database_checksum_internal_def Let_def)
  have c13: "pg_database_checksum_internal mix env [] (MyDatabaseId env) s t = Inr 0"
    by (simp add: pg_database_checksum_internal_def)
  from c1 c2 c3 c4 c5 c6 c7 c8 c9 c10 c13 show ?thesis by simp
qed

text \<open>
  Table 16384 with two tuples, index 16399 with three live index tuples on two pages
  (and a dead line pointer and a new page between them), and the catalog rows of both,
  with five terms: the folds over rearranged entries, the scans in opposite order, the
  refused foreign database and the empty catalog.
\<close>

theorem aggregate_xor_fold_order_independent_witness:
  "heap_fingerprints readme_mixer (relation_open sample_backend 16384) False
     = [1735033345, 3788669384]
   \<and> pg_checksum_table readme_mixer sample_backend 16384 False
       = fold (\<lambda>fp a. a XOR fp) [3788669384, 1735033345] 0
   \<and> pg_checksum_table readme_mixer sample_backend 16384 False = 2260206537
   \<and> pg_checksum_table readme_mixer sample_backend_reversed 16384 False = 2260206537
   \<and> index_fingerprints readme_mixer (RelationGetDescr (relation_open sample_backend 16399))
       (rd_index_blocks (relation_open sample_backend 16399))
     = [1447009846, 1052956159, 1530300663]
   \<and> pg_checksum_index readme_mixer sample_backend 16399
       = fold (\<lambda>fp a. a XOR fp) [1530300663, 1447009846, 1052956159] 0
   \<and> pg_checksum_index readme_mixer sample_backend 16399 = 868991806
   \<and> pg_checksum_index readme_mixer sample_backend_reversed 16399 = 868991806
   \<and> database_terms readme_mixer sample_backend False False [class_table, class_index]
     = [7451911474244501504, 16272211099636482048, 6214859965560012815,
        4522412267026792463, 6572591300632133647]
   \<and> pg_database_checksum_internal readme_mixer sample_backend [class_table, class_index] 5
       False False
     = Inr (fold (\<lambda>x a. a XOR x)
              [6572591300632133647, 16272211099636482048, 4522412267026792463,
               7451911474244501504, 6214859965560012815] 0)
   \<and> pg_database_checksum_internal readme_mixer sample_backend [class_table, class_index] 5
       False False = Inr 13075006310276153359
   \<and> pg_database_checksum_internal readme_mixer sample_backend [class_index, class_table] 5
       False False = Inr 13075006310276153359
   \<and> pg_database_checksum_internal readme_mixer sample_backend [class_table, class_index] 6
       False False = Inl ERR_cross_database_checksum_not_supported
   \<and> pg_database_checksum_internal readme_mixer sample_backend [] 5 False False = Inr 0"
proof -
  have a1: "mset [3788669384, 1735033345]
              = mset (heap_fingerprints readme_mixer (relation_open sample_backend 16384) False)"
    by (simp add: sample_heap_fingerprints)
  have a2: "mset [1530300663, 1447009846, 1052956159]
              = mset (index_fingerprints readme_mixer
                        (RelationGetDescr (relation_open sample_backend 16399))
                        (rd_index_blocks (relation_open sample_backend 16399)))"
    by (simp add: sample_index_fingerprints)
  have a3: "mset [6572591300632133647, 16272211099636482048, 4522412267026792463,
                  7451911474244501504, 6214859965560012815]
              = mset (database_terms readme_mixer sample_backend False False
                        [class_table, class_index])"
    by (simp add: sample_database_terms)
  have a4: "rd_heap_block (relation_open sample_backend_reversed 16384)
              = rd_heap_block (relation_open sample_backend 16384)"
    by (simp add: sample_backend_reversed_def)
  have a5: "mset (rd_heap_scan (relation_open sample_backend_reversed 16384))
              = mset (rd_heap_scan (relation_open sample_backend 16384))"
    by (simp add: sample_backend_reversed_def sample_backend_def sample_relation_def)
  have a6: "rd_att (relation_open sample_backend_reversed 16399)
              = rd_att (relation_open sample_backend 16399)"
    by (simp add: sample_backend_reversed_def)
  have a7: "mset (rd_index_blocks (relation_open sample_backend_reversed 16399))
              = mset (rd_index_blocks (relation_open sample_backend 16399))"
    by (simp add: sample_backend_reversed_def sample_backend_def sample_relation_def)
  have a8: "mset [class_index, class_table] = mset [class_table, class_index]" by simp
  have m: "MyDatabaseId sample_backend = 5" by (simp add: sample_backend_def)
  note th = aggregate_xor_fold_order_independent [OF a1 a2 a3 a4 a5 a6 a7 a8]
  from th [where dboid = 5] th [where dboid = 6]
  show ?thesis
    by (simp add: m sample_heap_fingerprints sample_index_fingerprints sample_database_terms
          OidIsValid_def InvalidOid_def)
qed

section \<open>Heap and index terms of the database aggregate\<close>

text \<open>
  C6, as the code has it. The heap loop and the index loop build their 64-bit term in
  the same way, fingerprint in the upper 32 bits and relation OID in the lower 32 bits:
  for the same fingerprint and OID the two terms are equal. A heap term and an index
  term are equal exactly when both the fingerprints and the OIDs are equal, so only the
  OID of the relation tells a heap contribution from an index contribution.
\<close>

theorem database_terms_share_one_layout:
  "index_tuple_term fp salt = heap_tuple_term fp salt
   \<and> (heap_tuple_term fp1 salt1 = index_tuple_term fp2 salt2) = (fp1 = fp2 \<and> salt1 = salt2)"
proof -
  have same: "index_tuple_term a b = heap_tuple_term a b" for a b
    by (simp add: index_tuple_term_def heap_tuple_term_def)
  have "fp1 = fp2 \<and> salt1 = salt2" if "heap_tuple_term fp1 salt1 = heap_tuple_term fp2 salt2"
    using heap_tuple_term_low [of fp1 salt1] heap_tuple_term_low [of fp2 salt2]
      heap_tuple_term_high [of fp1 salt1] heap_tuple_term_high [of fp2 salt2] that by simp
  then show ?thesis using same by auto
qed

text \<open>The same fingerprint under the OIDs of the sample table and the sample index.\<close>

theorem database_terms_share_one_layout_witness:
  "heap_tuple_term 1735033345 16384 \<noteq> index_tuple_term 1735033345 16399"
  using database_terms_share_one_layout [of 1735033345 16384 1735033345 16384 1735033345 16399]
  by simp

text \<open>
  The claim as stated fails: a heap term and an index term for the same fingerprint
  and the same container salt are the same 64-bit value.
\<close>

theorem database_terms_alias_counterexample:
  "heap_tuple_term 1735033345 16384 = index_tuple_term 1735033345 16384"
  by (simp add: index_tuple_term_def heap_tuple_term_def)

section \<open>Relations the database checksum passes over\<close>

text \<open>
  C7, as the code has it. \<open>pg_database_checksum_internal\<close> always passes over
  unlogged relations: the result is the one for the catalog without its rows of
  persistence \<open>u\<close>, whatever \<open>include_system\<close> and \<open>include_toast\<close> are. A row of any
  other persistence, temporary included, that passes the two filters is handed to
  \<open>process_relation_for_checksum\<close>.
\<close>

theorem database_checksum_skips_unlogged:
  "pg_database_checksum_internal mix env pg_class dboid incl_system incl_toast
     = pg_database_checksum_internal mix env
         (filter (\<lambda>c. relpersistence c \<noteq> RELPERSISTENCE_UNLOGGED) pg_class)
         dboid incl_system incl_toast
   \<and> (relpersistence classForm \<noteq> RELPERSISTENCE_UNLOGGED
       \<and> (incl_system \<or> (relnamespace classForm \<noteq> PG_CATALOG_NAMESPACE
                          \<and> relnamespace classForm \<noteq> PG_TOAST_NAMESPACE))
       \<and> (incl_toast \<or> relkind classForm \<noteq> RELKIND_TOASTVALUE)
      \<longrightarrow> pg_class_scan mix env incl_system incl_toast [classForm] state
            = process_relation_for_checksum mix env (oid classForm) state)"
proof -
  have "pg_database_checksum_internal mix env pg_class dboid incl_system incl_toast
     = pg_database_checksum_internal mix env
         (filter (\<lambda>c. relpersistence c \<noteq> RELPERSISTENCE_UNLOGGED) pg_class)
         dboid incl_system incl_toast"
    unfolding pg_database_checksum_internal_def
    by (subst pg_class_scan_filter_unlogged) (rule refl)
  then show ?thesis by (auto simp: Let_def)
qed

text \<open>
  A catalog with a table, an unlogged table and a temporary table: the unlogged one
  drops out, the temporary one is processed.
\<close>

theorem database_checksum_skips_unlogged_witness:
  "pg_database_checksum_internal readme_mixer sample_backend
       [class_table, class_unlogged, class_temp_table] 5 False False
     = pg_database_checksum_internal readme_mixer sample_backend
         [class_table, class_temp_table] 5 False False
   \<and> pg_class_scan readme_mixer sample_backend False False [class_temp_table]
        \<lparr>checksum = 0, n_tuples = 0, n_pages = 0, current_relid = 0,
          current_relkind = CHR 0x00, include_toast = False, include_system = False\<rparr>
     = process_relation_for_checksum readme_mixer sample_backend 16390
        \<lparr>checksum = 0, n_tuples = 0, n_pages = 0, current_relid = 0,
          current_relkind = CHR 0x00, include_toast = False, include_system = False\<rparr>"
proof -
  have f: "filter (\<lambda>c. relpersistence c \<noteq> RELPERSISTENCE_UNLOGGED)
             [class_table, class_unlogged, class_temp_table] = [class_table, class_temp_table]"
    by (simp add: sample_backend_simps)
  have t: "relpersistence class_temp_table \<noteq> RELPERSISTENCE_UNLOGGED
           \<and> relnamespace class_temp_table \<noteq> PG_CATALOG_NAMESPACE
           \<and> relnamespace class_temp_table \<noteq> PG_TOAST_NAMESPACE
           \<and> relkind class_temp_table \<noteq> RELKIND_TOASTVALUE
           \<and> oid class_temp_table = 16390"
    by (simp add: sample_backend_simps)
  note th = database_checksum_skips_unlogged [of readme_mixer sample_backend _ 5 False False
      class_temp_table]
  from th [of "[class_table, class_unlogged, class_temp_table]"] f
  have a: "pg_database_checksum_internal readme_mixer sample_backend
       [class_table, class_unlogged, class_temp_table] 5 False False
     = pg_database_checksum_internal readme_mixer sample_backend
         [class_table, class_temp_table] 5 False False"
    by (simp only:)
  from th [of "[]"] t
  have b: "pg_class_scan readme_mixer sample_backend False False [class_temp_table] st
     = process_relation_for_checksum readme_mixer sample_backend 16390 st" for st
    by (simp only: simp_thms)
  from a b show ?thesis by (simp only: simp_thms)
qed

text \<open>
  The claim as stated fails: a catalog that holds only a temporary table has a
  checksum other than that of the empty catalog.
\<close>

theorem database_checksum_temp_counterexample:
  "relpersistence class_temp_table = RELPERSISTENCE_TEMP
   \<and> pg_database_checksum_internal readme_mixer sample_backend [class_temp_table] 5 True True
       = Inr 7451911474244501510
   \<and> pg_database_checksum_internal readme_mixer sample_backend [] 5 True True = Inr 0"
  by (simp add: database_eval_simps)

section \<open>The toast filter and the system filter\<close>

text \<open>
  C9, as the code has it. With \<open>include_system\<close> false, every relation whose namespace
  is \<open>pg_catalog\<close> or \<open>pg_toast\<close> is passed over, whatever \<open>include_toast\<close> is: the
  result is the one for the catalog without those rows. If every relation of kind
  toast lies in one of these two namespaces (or is unlogged), the result with
  \<open>include_system\<close> false is the same for both values of \<open>include_toast\<close>.
\<close>

theorem database_checksum_toast_namespace:
  "pg_database_checksum_internal mix env pg_class dboid False incl_toast
     = pg_database_checksum_internal mix env
         (filter (\<lambda>c. relnamespace c \<noteq> PG_CATALOG_NAMESPACE
                      \<and> relnamespace c \<noteq> PG_TOAST_NAMESPACE) pg_class)
         dboid False incl_toast
   \<and> ((\<forall>c \<in> set pg_class. relkind c = RELKIND_TOASTVALUE \<longrightarrow>
          relnamespace c = PG_TOAST_NAMESPACE \<or> relnamespace c = PG_CATALOG_NAMESPACE
          \<or> relpersistence c = RELPERSISTENCE_UNLOGGED)
      \<longrightarrow> pg_database_checksum_internal mix env pg_class dboid False True
            = pg_database_checksum_internal mix env pg_class dboid False False)"
proof -
  have a: "pg_database_checksum_internal mix env pg_class dboid False incl_toast
     = pg_database_checksum_internal mix env
         (filter (\<lambda>c. relnamespace c \<noteq> PG_CATALOG_NAMESPACE
                      \<and> relnamespace c \<noteq> PG_TOAST_NAMESPACE) pg_class)
         dboid False incl_toast"
    unfolding pg_database_checksum_internal_def
    by (subst pg_class_scan_filter_system) (rule refl)
  have b: "pg_database_checksum_internal mix env pg_class dboid False True
            = pg_database_checksum_internal mix env pg_class dboid False False"
    if "\<forall>c \<in> set pg_class. relkind c = RELKIND_TOASTVALUE \<longrightarrow>
          relnamespace c = PG_TOAST_NAMESPACE \<or> relnamespace c = PG_CATALOG_NAMESPACE
          \<or> relpersistence c = RELPERSISTENCE_UNLOGGED"
  proof -
    let ?z = "\<lambda>t. \<lparr>checksum = 0, n_tuples = 0, n_pages = 0, current_relid = 0,
                    current_relkind = CHR 0x00, include_toast = t, include_system = False\<rparr>"
    have z: "checksum (?z t) = 0" for t by simp
    have "checksum (pg_class_scan mix env False True pg_class (?z True))
            = checksum (pg_class_scan mix env False True pg_class (?z False))"
      unfolding pg_class_scan_checksum [OF z [of True], of _ _ _ _ _ "?z True"]
        pg_class_scan_checksum [OF z [of True], of _ _ _ _ _ "?z False"]
      by simp
    also have "\<dots> = checksum (pg_class_scan mix env False False pg_class (?z False))"
      by (simp only: pg_class_scan_toast_flag [OF that])
    finally show ?thesis by (simp add: pg_database_checksum_internal_def Let_def)
  qed
  from a b show ?thesis by blast
qed



text \<open>
  A catalog with a table, its toast table in \<open>pg_toast\<close> and a system catalog, with
  \<open>include_system\<close> false.
\<close>

theorem database_checksum_toast_namespace_witness:
  "pg_database_checksum_internal readme_mixer sample_backend
       [class_table, class_toast, class_catalog] 5 False True
     = pg_database_checksum_internal readme_mixer sample_backend [class_table] 5 False True
   \<and> pg_database_checksum_internal readme_mixer sample_backend
       [class_table, class_toast, class_catalog] 5 False True
     = pg_database_checksum_internal readme_mixer sample_backend
         [class_table, class_toast, class_catalog] 5 False False"
proof -
  have f: "filter (\<lambda>c. relnamespace c \<noteq> PG_CATALOG_NAMESPACE
                      \<and> relnamespace c \<noteq> PG_TOAST_NAMESPACE)
             [class_table, class_toast, class_catalog] = [class_table]"
    by (simp add: sample_backend_simps)
  have h: "\<forall>c \<in> set [class_table, class_toast, class_catalog].
             relkind c = RELKIND_TOASTVALUE \<longrightarrow>
             relnamespace c = PG_TOAST_NAMESPACE \<or> relnamespace c = PG_CATALOG_NAMESPACE
             \<or> relpersistence c = RELPERSISTENCE_UNLOGGED"
    by (simp add: sample_backend_simps)
  from database_checksum_toast_namespace
         [of readme_mixer sample_backend "[class_table, class_toast, class_catalog]" 5 True] f h
  show ?thesis by auto
qed

text \<open>
  The claim as stated fails: the toast table of a temporary table lies in the session's
  temporary toast schema, not in \<open>pg_toast\<close>, and with \<open>include_system\<close> false the
  flag \<open>include_toast\<close> still decides whether it is counted.
\<close>

theorem database_checksum_temp_toast_counterexample:
  "relkind class_temp_toast = RELKIND_TOASTVALUE
   \<and> pg_database_checksum_internal readme_mixer sample_backend [class_temp_toast] 5 False True
       = Inr 7451911474244501513
   \<and> pg_database_checksum_internal readme_mixer sample_backend [class_temp_toast] 5 False False
       = Inr 0"
  by (simp add: database_eval_simps)

section \<open>Errors of the SQL-level column checksum\<close>

text \<open>
  C10, as the code has it. \<open>pg_checksum_column\<close> raises an error, and returns no
  recovery value, whenever the attribute number is not positive, exceeds the number of
  columns, or the slot named by the tid is not in use. In every other case its result is
  that of \<open>pg_column_checksum_internal\<close> on the extracted value, and this is an error
  exactly when the value is not null and either its type is not in the type cache or it
  is a null pointer of a fixed-length type passed by reference.
\<close>

theorem pg_checksum_column_error_cases:
  assumes "rel = relation_open env reloid"
    and "desc = RelationGetDescr rel"
    and "lp = PageGetItemId (ReadBuffer rel (ItemPointerGetBlockNumber tid))
                (ItemPointerGetOffsetNumber tid)"
    and "tuple = PageGetItem (ReadBuffer rel (ItemPointerGetBlockNumber tid)) lp"
    and "attr = TupleDescAttr desc (attnum - 1)"
    and "heap_getattr env tuple attnum desc = (val, isnull)"
  shows "(attnum \<le>s 0 \<or> natts desc <s attnum \<or> \<not> ItemIdIsUsed lp
            \<longrightarrow> isl (pg_checksum_column mix env reloid tid attnum))
       \<and> (\<not> (attnum \<le>s 0 \<or> natts desc <s attnum \<or> \<not> ItemIdIsUsed lp)
            \<longrightarrow> pg_checksum_column mix env reloid tid attnum
                = pg_column_checksum_internal mix env val isnull
                    (atttypid attr) (atttypmod attr) attnum)
       \<and> isl (pg_column_checksum_internal mix env val isnull
                 (atttypid attr) (atttypmod attr) attnum)
           = (\<not> isnull \<and>
              (case SearchSysCache1_TYPEOID env (atttypid attr) of
                 None \<Rightarrow> True
               | Some typeForm \<Rightarrow>
                   \<not> (typbyval typeForm \<and> 0 <s typlen typeForm)
                   \<and> typlen typeForm \<noteq> - 1 \<and> typlen typeForm \<noteq> - 2 \<and> val = 0))"
proof (intro conjI impI)
  assume "attnum \<le>s 0 \<or> natts desc <s attnum \<or> \<not> ItemIdIsUsed lp"
  then show "isl (pg_checksum_column mix env reloid tid attnum)"
    using assms(1,2,3) by (auto simp: pg_checksum_column_def Let_def)
next
  assume "\<not> (attnum \<le>s 0 \<or> natts desc <s attnum \<or> \<not> ItemIdIsUsed lp)"
  then show "pg_checksum_column mix env reloid tid attnum
                = pg_column_checksum_internal mix env val isnull
                    (atttypid attr) (atttypmod attr) attnum"
    using assms
    by (simp add: pg_checksum_column_def pg_tuple_column_checksum_def Let_def)
next
  show "isl (pg_column_checksum_internal mix env val isnull
                 (atttypid attr) (atttypmod attr) attnum)
           = (\<not> isnull \<and>
              (case SearchSysCache1_TYPEOID env (atttypid attr) of
                 None \<Rightarrow> True
               | Some typeForm \<Rightarrow>
                   \<not> (typbyval typeForm \<and> 0 <s typlen typeForm)
                   \<and> typlen typeForm \<noteq> - 1 \<and> typlen typeForm \<noteq> - 2 \<and> val = 0))"
    by (auto simp: pg_column_checksum_internal_def Let_def split: option.splits)
qed

text \<open>
  On the sample table: attribute numbers 0 and 4, the unused slot 3, and column 1 of
  the tuple in slot 1.
\<close>

theorem pg_checksum_column_error_cases_witness:
  "isl (pg_checksum_column readme_mixer sample_backend 16384 \<lparr>ip_blkid = 0, ip_posid = 1\<rparr> 0)
   \<and> isl (pg_checksum_column readme_mixer sample_backend 16384 \<lparr>ip_blkid = 0, ip_posid = 1\<rparr> 4)
   \<and> isl (pg_checksum_column readme_mixer sample_backend 16384 \<lparr>ip_blkid = 0, ip_posid = 3\<rparr> 1)
   \<and> pg_checksum_column readme_mixer sample_backend 16384 \<lparr>ip_blkid = 0, ip_posid = 1\<rparr> 1
       = pg_column_checksum_internal readme_mixer sample_backend 42 False 23 (- 1) 1
   \<and> \<not> isl (pg_column_checksum_internal readme_mixer sample_backend 42 False 23 (- 1) 1)"
proof -
  note th = pg_checksum_column_error_cases
    [where mix = readme_mixer and env = sample_backend and reloid = 16384,
     OF refl refl refl refl refl]
  let ?rel = "relation_open sample_backend 16384"
  have h0: "heap_getattr sample_backend tuple 0 desc = (0, True)"
    and h4: "heap_getattr sample_backend tuple 4 desc = (0, True)"
    and h1: "heap_getattr sample_backend tuple 1 desc = (42, False)" for tuple desc
    by (simp_all add: sample_backend_def)
  have "(0 :: int32) \<le>s 0" by (simp add: word_sle_eq)
  with th [where tid = "\<lparr>ip_blkid = 0, ip_posid = 1\<rparr>" and attnum = 0, OF h0]
  have a: "isl (pg_checksum_column readme_mixer sample_backend 16384
                  \<lparr>ip_blkid = 0, ip_posid = 1\<rparr> 0)"
    by blast
  have "natts (RelationGetDescr ?rel) <s 4"
    by (simp add: RelationGetDescr_def sample_backend_simps word_sless_alt)
  with th [where tid = "\<lparr>ip_blkid = 0, ip_posid = 1\<rparr>" and attnum = 4, OF h4]
  have b: "isl (pg_checksum_column readme_mixer sample_backend 16384
                  \<lparr>ip_blkid = 0, ip_posid = 1\<rparr> 4)"
    by blast
  have "\<not> ItemIdIsUsed (PageGetItemId
            (ReadBuffer ?rel (ItemPointerGetBlockNumber \<lparr>ip_blkid = 0, ip_posid = 3\<rparr>))
            (ItemPointerGetOffsetNumber \<lparr>ip_blkid = 0, ip_posid = 3\<rparr>))"
    by (simp add: ReadBuffer_def ItemPointerGetBlockNumber_def ItemPointerGetOffsetNumber_def
          sample_backend_simps sample_heap_simps)
  with th [where tid = "\<lparr>ip_blkid = 0, ip_posid = 3\<rparr>" and attnum = 1, OF h1]
  have c: "isl (pg_checksum_column readme_mixer sample_backend 16384
                  \<lparr>ip_blkid = 0, ip_posid = 3\<rparr> 1)"
    by blast
  have good: "\<not> ((1 :: int32) \<le>s 0 \<or> natts (RelationGetDescr ?rel) <s 1
                \<or> \<not> ItemIdIsUsed (PageGetItemId
                        (ReadBuffer ?rel (ItemPointerGetBlockNumber \<lparr>ip_blkid = 0, ip_posid = 1\<rparr>))
                        (ItemPointerGetOffsetNumber \<lparr>ip_blkid = 0, ip_posid = 1\<rparr>)))"
    by (simp add: RelationGetDescr_def ReadBuffer_def ItemPointerGetBlockNumber_def
          ItemPointerGetOffsetNumber_def sample_backend_simps sample_heap_simps
          word_sle_eq word_sless_alt)
  have attr: "TupleDescAttr (RelationGetDescr ?rel) 0 = \<lparr>atttypid = 23, atttypmod = - 1\<rparr>"
    by (simp add: TupleDescAttr_def RelationGetDescr_def sample_backend_simps)
  have look: "SearchSysCache1_TYPEOID sample_backend 23 = Some \<lparr>typbyval = True, typlen = 4\<rparr>"
    by (simp add: sample_backend_def)
  from th [where tid = "\<lparr>ip_blkid = 0, ip_posid = 1\<rparr>" and attnum = 1, OF h1] good
  have d: "pg_checksum_column readme_mixer sample_backend 16384 \<lparr>ip_blkid = 0, ip_posid = 1\<rparr> 1
       = pg_column_checksum_internal readme_mixer sample_backend 42 False 23 (- 1) 1
     \<and> \<not> isl (pg_column_checksum_internal readme_mixer sample_backend 42 False 23 (- 1) 1)"
    by (simp add: attr look word_sless_alt)
  from a b c d show ?thesis by simp
qed

text \<open>
  The claim as stated fails: column 3 is a dropped column, the slot is in use and 3 is
  within the column count, yet the call raises the type-cache error.
\<close>

theorem pg_checksum_column_dropped_counterexample:
  "pg_checksum_column readme_mixer sample_backend 16384 \<lparr>ip_blkid = 0, ip_posid = 1\<rparr> 3
     = Inl (ERR_cache_lookup_failed_for_type 0)
   \<and> \<not> ((3 :: int32) \<le>s 0)
   \<and> \<not> (natts (RelationGetDescr (relation_open sample_backend 16384)) <s 3)
   \<and> ItemIdIsUsed (PageGetItemId (ReadBuffer (relation_open sample_backend 16384) 0) 1)"
  by (simp add: column_eval_simps)



end
